theory Spec2Isabelle
  imports Complex_Main
begin

section \<open>Shared: Python exceptions as values\<close>

text \<open>
  Every \<^verbatim>\<open>raise\<close>, failed \<^verbatim>\<open>assert\<close> and library exception of the two modules is a
  value of this type; a function that can raise returns \<open>error + 'a\<close> with \<open>Inl\<close> the
  exception.
\<close>

datatype error =
    AssertionError | AttributeError | KeyError | NameError | NotImplementedError
  | StopIteration | TypeError | ValueError

section \<open>corruptor.py\<close>

subsection \<open>Arrays and the random source\<close>

text \<open>
  A numpy array of any rank: its shape and its elements in row-major order. Pixel data
  is real-valued here; IEEE infinities and NaN are not part of the model.
\<close>

record ndarray =
  shape :: "nat list"
  elems :: "real list"

text \<open>
  \<^verbatim>\<open>numpy.random.RandomState\<close> is a library outside the repository, so it is a parameter:
  a state type \<open>'r\<close> with a seeding function (which may reject a seed) and one function
  per scalar draw, each returning the value drawn and the advanced state.
  \<open>binomial1 st n p\<close> is one draw of \<^verbatim>\<open>binomial(n, p)\<close>, \<open>normal1 st loc scale\<close> one draw
  of \<^verbatim>\<open>normal(loc, scale)\<close>, \<open>randint1 st k\<close> one draw of \<^verbatim>\<open>randint(k)\<close>.
\<close>

record 'r random_api =
  RandomState :: "int \<Rightarrow> error + 'r"
  randint1 :: "'r \<Rightarrow> int \<Rightarrow> int \<times> 'r"
  binomial1 :: "'r \<Rightarrow> nat \<Rightarrow> real \<Rightarrow> int \<times> 'r"
  normal1 :: "'r \<Rightarrow> real \<Rightarrow> real \<Rightarrow> real \<times> 'r"

text \<open>An array-valued draw fills the requested number of cells by successive scalar draws.\<close>

fun sample_n :: "('r \<Rightarrow> 'a \<times> 'r) \<Rightarrow> nat \<Rightarrow> 'r \<Rightarrow> 'a list \<times> 'r" where
  "sample_n f 0 st = ([], st)"
| "sample_n f (Suc n) st =
     (case f st of (v, st1) \<Rightarrow> (case sample_n f n st1 of (vs, st2) \<Rightarrow> (v # vs, st2)))"

text \<open>
  \<^verbatim>\<open>rng.binomial(size=size, n=n, p=p)\<close>: numpy raises ValueError for \<open>p\<close> outside \<open>[0, 1]\<close>
  before drawing anything; otherwise the result has shape \<open>size\<close>.
\<close>

definition RandomState_binomial ::
  "'r random_api \<Rightarrow> 'r \<Rightarrow> nat list \<Rightarrow> nat \<Rightarrow> real \<Rightarrow> error + (ndarray \<times> 'r)" where
  "RandomState_binomial R st sz n p =
     (if p < 0 \<or> 1 < p then Inl ValueError
      else (case sample_n (\<lambda>s. binomial1 R s n p) (prod_list sz) st of
              (vs, st') \<Rightarrow> Inr (\<lparr>shape = sz, elems = map real_of_int vs\<rparr>, st')))"

text \<open>\<^verbatim>\<open>rng.normal(size=size, loc=loc, scale=scale)\<close>: ValueError for a negative scale.\<close>

definition RandomState_normal ::
  "'r random_api \<Rightarrow> 'r \<Rightarrow> nat list \<Rightarrow> real \<Rightarrow> real \<Rightarrow> error + (ndarray \<times> 'r)" where
  "RandomState_normal R st sz loc scale =
     (if scale < 0 then Inl ValueError
      else (case sample_n (\<lambda>s. normal1 R s loc scale) (prod_list sz) st of
              (vs, st') \<Rightarrow> Inr (\<lparr>shape = sz, elems = vs\<rparr>, st')))"

text \<open>
  An arithmetic operator between the noise array and \<open>x\<close>. The noise is drawn with
  \<^verbatim>\<open>size=x.shape\<close>, so the operands have the same shape and numpy applies the operator
  cell by cell; the result has the shape of \<open>x\<close>.
\<close>

definition elementwise :: "(real \<Rightarrow> real \<Rightarrow> real) \<Rightarrow> ndarray \<Rightarrow> ndarray \<Rightarrow> ndarray" where
  "elementwise f noise x = \<lparr>shape = shape x, elems = map2 f (elems noise) (elems x)\<rparr>"

text \<open>Python's \<^verbatim>\<open>%\<close> on floats with a positive divisor: the floored remainder.\<close>

definition py_mod :: "real \<Rightarrow> real \<Rightarrow> real" where
  "py_mod a b = a - b * of_int \<lfloor>a / b\<rfloor>"

subsection \<open>The Corruptor classes\<close>

record 'r corruptor =
  s_rng :: 'r
  corruption_level :: real

text \<open>
  \<^verbatim>\<open>Corruptor.__init__\<close>: seed an outer source with \<open>rng\<close>, draw one integer below \<open>2 ^ 30\<close>
  from it, and seed the noise source \<open>s_rng\<close> with that integer.
\<close>

definition Corruptor_init :: "'r random_api \<Rightarrow> real \<Rightarrow> int \<Rightarrow> error + 'r corruptor" where
  "Corruptor_init R level rng =
     (case RandomState R rng of
        Inl e \<Rightarrow> Inl e
      | Inr outer \<Rightarrow>
          (case randint1 R outer (2 ^ 30) of
             (seed, _) \<Rightarrow>
               (case RandomState R seed of
                  Inl e \<Rightarrow> Inl e
                | Inr st \<Rightarrow> Inr \<lparr>s_rng = st, corruption_level = level\<rparr>)))"

definition GaussianCorruptor_init :: "'r random_api \<Rightarrow> real \<Rightarrow> int \<Rightarrow> error + 'r corruptor" where
  "GaussianCorruptor_init R stdev rng = Corruptor_init R stdev rng"

definition BinomialCorruptor_corrupt ::
  "'r random_api \<Rightarrow> 'r corruptor \<Rightarrow> ndarray \<Rightarrow> error + (ndarray \<times> 'r corruptor)" where
  "BinomialCorruptor_corrupt R c x =
     (case RandomState_binomial R (s_rng c) (shape x) 1 (1 - corruption_level c) of
        Inl e \<Rightarrow> Inl e
      | Inr (noise, st') \<Rightarrow> Inr (elementwise (*) noise x, c\<lparr>s_rng := st'\<rparr>))"

definition GaussianCorruptor_corrupt ::
  "'r random_api \<Rightarrow> 'r corruptor \<Rightarrow> ndarray \<Rightarrow> error + (ndarray \<times> 'r corruptor)" where
  "GaussianCorruptor_corrupt R c x =
     (case RandomState_normal R (s_rng c) (shape x) 0 (corruption_level c) of
        Inl e \<Rightarrow> Inl e
      | Inr (noise, st') \<Rightarrow>
          Inr (elementwise (\<lambda>n v. py_mod \<bar>n + v\<bar> 255) noise x, c\<lparr>s_rng := st'\<rparr>))"

datatype corruptor_class = Corruptor | DummyCorruptor | BinomialCorruptor | GaussianCorruptor

text \<open>\<^verbatim>\<open>__call__\<close>, dispatched on the class of the instance.\<close>

fun call ::
  "'r random_api \<Rightarrow> corruptor_class \<Rightarrow> 'r corruptor \<Rightarrow> ndarray \<Rightarrow> error + (ndarray \<times> 'r corruptor)"
where
  "call R Corruptor c inputs = Inl NotImplementedError"
| "call R DummyCorruptor c inputs = Inr (inputs, c)"
| "call R BinomialCorruptor c inputs = BinomialCorruptor_corrupt R c inputs"
| "call R GaussianCorruptor c inputs = GaussianCorruptor_corrupt R c inputs"

text \<open>
  A caller applying one instance to a sequence of inputs. A call that raises leaves the
  instance as it was (the library validates its arguments before drawing), and the caller
  goes on with the next input; the results are kept in order.
\<close>

fun call_seq ::
  "'r random_api \<Rightarrow> corruptor_class \<Rightarrow> 'r corruptor \<Rightarrow> ndarray list
     \<Rightarrow> (error + ndarray) list \<times> 'r corruptor"
where
  "call_seq R cls c [] = ([], c)"
| "call_seq R cls c (x # xs) =
     (case call R cls c x of
        Inl e \<Rightarrow> (case call_seq R cls c xs of (ys, c') \<Rightarrow> (Inl e # ys, c'))
      | Inr (y, c1) \<Rightarrow> (case call_seq R cls c1 xs of (ys, c') \<Rightarrow> (Inr y # ys, c')))"

text \<open>
  Constructing an instance of a class: \<^verbatim>\<open>GaussianCorruptor\<close> has its own \<^verbatim>\<open>__init__\<close>,
  the other classes inherit \<^verbatim>\<open>Corruptor.__init__\<close>.
\<close>

definition construct :: "'r random_api \<Rightarrow> corruptor_class \<Rightarrow> real \<Rightarrow> int \<Rightarrow> error + 'r corruptor" where
  "construct R cls level rng =
     (case cls of GaussianCorruptor \<Rightarrow> GaussianCorruptor_init R level rng
                | _ \<Rightarrow> Corruptor_init R level rng)"

text \<open>The instance after one call: unchanged when the call raises.\<close>

definition next_state ::
  "'r random_api \<Rightarrow> corruptor_class \<Rightarrow> 'r corruptor \<Rightarrow> ndarray \<Rightarrow> 'r corruptor" where
  "next_state R cls c x = (case call R cls c x of Inl e \<Rightarrow> c | Inr (y, c') \<Rightarrow> c')"

text \<open>
  What the library promises of a Bernoulli draw (\<^verbatim>\<open>binomial\<close> with \<open>n = 1\<close>): the value is 0
  or 1, always 1 when \<open>p = 1\<close> and always 0 when \<open>p = 0\<close>.
\<close>

definition bernoulli_contract :: "'r random_api \<Rightarrow> bool" where
  "bernoulli_contract R =
     (\<forall>st p. (fst (binomial1 R st 1 p) = 0 \<or> fst (binomial1 R st 1 p) = 1)
           \<and> (p = 1 \<longrightarrow> fst (binomial1 R st 1 p) = 1)
           \<and> (p = 0 \<longrightarrow> fst (binomial1 R st 1 p) = 0))"

subsection \<open>The factory \<^verbatim>\<open>get\<close>\<close>

text \<open>
  What a module-level name can be bound to. A class carries its name and the names of
  its proper ancestors.
\<close>

datatype pyobj =
    PyClass string "string list"
  | PyModule string
  | PyFunction string
  | PyStr string
  | PyNone

text \<open>\<^verbatim>\<open>issubclass(obj, cls)\<close> raises TypeError unless \<open>obj\<close> is a class.\<close>

fun issubclass :: "pyobj \<Rightarrow> pyobj \<Rightarrow> error + bool" where
  "issubclass (PyClass n ancestors) (PyClass m _) = Inr (n = m \<or> m \<in> set ancestors)"
| "issubclass _ _ = Inl TypeError"

definition Corruptor_class :: pyobj where
  "Corruptor_class = PyClass ''Corruptor'' [''object'']"

definition DummyCorruptor_class :: pyobj where
  "DummyCorruptor_class = PyClass ''DummyCorruptor'' [''Corruptor'', ''object'']"

definition BinomialCorruptor_class :: pyobj where
  "BinomialCorruptor_class = PyClass ''BinomialCorruptor'' [''Corruptor'', ''object'']"

definition GaussianCorruptor_class :: pyobj where
  "GaussianCorruptor_class = PyClass ''GaussianCorruptor'' [''Corruptor'', ''object'']"

text \<open>\<^verbatim>\<open>globals()\<close> of the module once it is loaded: every module-level binding.\<close>

definition module_globals :: "string \<rightharpoonup> pyobj" where
  "module_globals = map_of
     [(''__name__'', PyStr ''corruptor''),
      (''__doc__'', PyStr ''Based on the pylearn2's corruptor class.''),
      (''__file__'', PyStr ''corruptor.py''),
      (''__package__'', PyNone),
      (''__builtins__'', PyModule ''__builtin__''),
      (''np'', PyModule ''numpy''),
      (''Corruptor'', Corruptor_class),
      (''DummyCorruptor'', DummyCorruptor_class),
      (''BinomialCorruptor'', BinomialCorruptor_class),
      (''GaussianCorruptor'', GaussianCorruptor_class),
      (''get'', PyFunction ''get'')]"

text \<open>
  \<^verbatim>\<open>get(str)\<close>, with the dictionary that \<^verbatim>\<open>globals()\<close> returns as a parameter: a missing
  key raises KeyError at the lookup, \<^verbatim>\<open>issubclass\<close> may raise, and the \<^verbatim>\<open>else\<close> branch
  raises NameError.
\<close>

definition get :: "(string \<rightharpoonup> pyobj) \<Rightarrow> string \<Rightarrow> error + pyobj" where
  "get globals str =
     (case globals str of
        None \<Rightarrow> Inl KeyError
      | Some obj \<Rightarrow>
          (case issubclass obj Corruptor_class of
             Inl e \<Rightarrow> Inl e
           | Inr True \<Rightarrow> Inr obj
           | Inr False \<Rightarrow> Inl NameError))"

subsection \<open>A small concrete random source\<close>

text \<open>
  A deterministic generator on which the definitions can be run: the state is a counter,
  a seed must lie in \<open>[0, 2 ^ 32)\<close>, a Bernoulli draw succeeds when \<open>p = 1\<close> or when
  \<open>0 < p\<close> and the counter is even.
\<close>

definition toy_rng :: "nat random_api" where
  "toy_rng =
     \<lparr>RandomState = (\<lambda>s. if 0 \<le> s \<and> s < 2 ^ 32 then Inr (nat s mod 16) else Inl ValueError),
      randint1 = (\<lambda>st k. ((5 * int st + 3) mod k, Suc st)),
      binomial1 = (\<lambda>st n p. (if 1 \<le> p \<or> (0 < p \<and> even st) then int n else 0, Suc st)),
      normal1 = (\<lambda>st loc scale. (loc + scale * (real (st mod 5) - 2), Suc st))\<rparr>"

section \<open>dataset.py\<close>

subsection \<open>Two-dimensional arrays and slices\<close>

text \<open>
  A two-dimensional numpy array of floats: its shape and the value of each cell. Only
  the cells inside the shape are part of the array.
\<close>

record array2d =
  nrows :: nat
  ncols :: nat
  cell :: "nat \<Rightarrow> nat \<Rightarrow> real"

text \<open>\<^verbatim>\<open>numpy.zeros((r, c))\<close>: ValueError for a negative dimension.\<close>

definition zeros :: "int \<Rightarrow> int \<Rightarrow> error + array2d" where
  "zeros r c =
     (if r < 0 \<or> c < 0 then Inl ValueError
      else Inr \<lparr>nrows = nat r, ncols = nat c, cell = (\<lambda>i j. 0)\<rparr>)"

text \<open>\<^verbatim>\<open>numpy.zeros((n,), dtype)\<close>; the element type of the targets is not modelled.\<close>

definition zeros1 :: "int \<Rightarrow> error + real list" where
  "zeros1 n = (if n < 0 then Inl ValueError else Inr (replicate (nat n) 0))"

definition fill :: "array2d \<Rightarrow> real \<Rightarrow> array2d" where
  "fill arr v = arr\<lparr>cell := (\<lambda>i j. v)\<rparr>"

text \<open>
  A slice bound on an axis of length \<open>n\<close>, as Python normalises it: a negative bound
  counts from the end, and the result is clipped to \<open>[0, n]\<close>. The slice \<open>i:j\<close> starts at
  the normalised \<open>i\<close> and is empty when the normalised \<open>j\<close> is not beyond it.
\<close>

definition slice_index :: "nat \<Rightarrow> int \<Rightarrow> nat" where
  "slice_index n i = (if i < 0 then nat (max 0 (i + int n)) else nat (min i (int n)))"

definition slice_range :: "nat \<Rightarrow> int \<Rightarrow> int \<Rightarrow> nat \<times> nat" where
  "slice_range n i j =
     (let start = slice_index n i; stop = slice_index n j
      in (start, if stop \<le> start then 0 else stop - start))"

text \<open>\<^verbatim>\<open>arr[i0:i1, j0:j1]\<close> read as a value.\<close>

definition getslice :: "array2d \<Rightarrow> int \<Rightarrow> int \<Rightarrow> int \<Rightarrow> int \<Rightarrow> array2d" where
  "getslice arr i0 i1 j0 j1 =
     (case slice_range (nrows arr) i0 i1 of (r0, nr) \<Rightarrow>
      case slice_range (ncols arr) j0 j1 of (c0, nc) \<Rightarrow>
        \<lparr>nrows = nr, ncols = nc, cell = (\<lambda>i j. cell arr (r0 + i) (c0 + j))\<rparr>)"

text \<open>
  numpy broadcasts the right-hand side of a slice assignment to the shape of the slice:
  an axis of the source must have the length of the slice's axis or length 1 (its one
  entry is then repeated); otherwise the assignment raises ValueError.
\<close>

definition broadcastable :: "array2d \<Rightarrow> nat \<Rightarrow> nat \<Rightarrow> bool" where
  "broadcastable src nr nc \<longleftrightarrow>
     (nrows src = nr \<or> nrows src = 1) \<and> (ncols src = nc \<or> ncols src = 1)"

definition broadcast_cell :: "array2d \<Rightarrow> nat \<Rightarrow> nat \<Rightarrow> real" where
  "broadcast_cell src i j =
     cell src (if nrows src = 1 then 0 else i) (if ncols src = 1 then 0 else j)"

text \<open>
  \<^verbatim>\<open>dst[i0:i1, j0:j1] = src\<close> (with \<open>f old new = new\<close>) and \<^verbatim>\<open>dst[i0:i1, j0:j1] += src\<close>
  (with \<open>f = (+)\<close>).
\<close>

definition setslice ::
  "(real \<Rightarrow> real \<Rightarrow> real) \<Rightarrow> array2d \<Rightarrow> int \<Rightarrow> int \<Rightarrow> int \<Rightarrow> int \<Rightarrow> array2d \<Rightarrow> error + array2d"
where
  "setslice f dst i0 i1 j0 j1 src =
     (case slice_range (nrows dst) i0 i1 of (r0, nr) \<Rightarrow>
      case slice_range (ncols dst) j0 j1 of (c0, nc) \<Rightarrow>
        if broadcastable src nr nc
        then Inr (dst\<lparr>cell := (\<lambda>i j.
               if r0 \<le> i \<and> i < r0 + nr \<and> c0 \<le> j \<and> j < c0 + nc
               then f (cell dst i j) (broadcast_cell src (i - r0) (j - c0))
               else cell dst i j)\<rparr>)
        else Inl ValueError)"

text \<open>\<^verbatim>\<open>numpy.any\<close> of a cell-wise test.\<close>

definition np_any :: "(real \<Rightarrow> bool) \<Rightarrow> array2d \<Rightarrow> bool" where
  "np_any P arr = list_ex (\<lambda>i. list_ex (\<lambda>j. P (cell arr i j)) [0..<ncols arr]) [0..<nrows arr]"

text \<open>\<^verbatim>\<open>arr.reshape(n)\<close>: the cells in row-major order; \<open>n\<close> must be their number (or -1).\<close>

definition reshape :: "array2d \<Rightarrow> int \<Rightarrow> error + real list" where
  "reshape arr n =
     (if n = int (nrows arr * ncols arr) \<or> n = - 1
      then Inr (map (\<lambda>k. cell arr (k div ncols arr) (k mod ncols arr)) [0..<nrows arr * ncols arr])
      else Inl ValueError)"

subsection \<open>Sprites and the source of placements\<close>

record sprite =
  sprite_h :: int
  sprite_w :: int
  marginh :: int
  marginw :: int
  mh :: int
  mw :: int
  patch :: array2d
  mask :: array2d

type_synonym description = "((int \<times> int) \<times> sprite) list"

text \<open>The attributes of \<^verbatim>\<open>gen\<close> that the constructor reads, and the iterable itself.\<close>

record 'g source =
  gen_w :: int
  gen_h :: int
  gen_nout :: int
  gen_nclasses :: "int option list option"
  gen_out_format :: string
  gen_out_dtype :: string
  gen_items :: 'g

text \<open>
  Code outside the two modules, as parameters: \<^verbatim>\<open>iter(gen)\<close> and \<^verbatim>\<open>gen.next()\<close> of the
  source of placements (a pull returns a description and a target, and the advanced
  iterator, or raises), and the constructor and the one method of
  \<^verbatim>\<open>perlin.PerlinNoiseGenerator\<close> (a request returns a field and the advanced generator).
\<close>

record ('g, 'p) externals =
  gen_iter :: "'g \<Rightarrow> 'g"
  gen_next :: "'g \<Rightarrow> error + ((description \<times> real list) \<times> 'g)"
  PerlinNoiseGenerator :: "int \<Rightarrow> int \<Rightarrow> int \<Rightarrow> 'p"
  get_background_noise :: "'p \<Rightarrow> array2d \<times> 'p"

subsection \<open>SpritePlacer\<close>

record ('g, 'p) SpritePlacer =
  gen :: "'g source"
  collision_check :: bool
  enable_perlin :: bool
  sp_w :: int
  sp_h :: int
  nin :: int
  out_format :: string
  out_dtype :: string
  nout :: int
  nclasses :: "int option list option"
  n_successes :: int
  n_rejections :: int
  perlin_gen :: "'p option"

text \<open>
  \<^verbatim>\<open>__init__\<close> (lines 70 to 89). The assertion on \<^verbatim>\<open>gen.out_format\<close> is the only statement
  of the module that can raise here; the constructor of the noise generator, which runs
  after it, is taken to return.
\<close>

definition SpritePlacer_init ::
  "('g, 'p) externals \<Rightarrow> 'g source \<Rightarrow> bool \<Rightarrow> bool \<Rightarrow> error + ('g, 'p) SpritePlacer" where
  "SpritePlacer_init E g cc ep =
     (if gen_out_format g \<noteq> ''array'' then Inl AssertionError
      else Inr \<lparr>gen = g, collision_check = cc, enable_perlin = ep,
                sp_w = gen_w g, sp_h = gen_h g, nin = gen_w g * gen_h g,
                out_format = gen_out_format g, out_dtype = gen_out_dtype g,
                nout = gen_nout g, nclasses = gen_nclasses g,
                n_successes = 0, n_rejections = 0,
                perlin_gen = (if ep then Some (PerlinNoiseGenerator E (gen_w g) (gen_h g) 32)
                              else None)\<rparr>)"

text \<open>\<^verbatim>\<open>rejection_rate\<close> (lines 91 to 102): the value returned and the instance after the call.\<close>

definition rejection_rate ::
  "('g, 'p) SpritePlacer \<Rightarrow> real option \<times> ('g, 'p) SpritePlacer" where
  "rejection_rate sp =
     (let total = n_successes sp + n_rejections sp
      in if total = 0 then (None, sp)
         else (Some (real_of_int (n_rejections sp) / real_of_int total), sp))"

subsection \<open>The collision test\<close>

definition bool_int :: "bool \<Rightarrow> int" where
  "bool_int b = (if b then 1 else 0)"

text \<open>
  The body of the accumulation loop (lines 134 to 147) for one \<^verbatim>\<open>(x, y), sprite\<close>;
  \<open>H\<close> and \<open>W\<close> are \<^verbatim>\<open>self.h\<close> and \<^verbatim>\<open>self.w\<close>, and \<^verbatim>\<open>(a < 0) * -a\<close> multiplies a
  truth value, read as 0 or 1, with an integer.
\<close>

definition add_mask :: "int \<Rightarrow> int \<Rightarrow> array2d \<Rightarrow> (int \<times> int) \<times> sprite \<Rightarrow> error + array2d" where
  "add_mask H W col item =
     (case item of ((x, y), s) \<Rightarrow>
        let a = y - marginh s; b = y + sprite_h s + marginh s;
            c = x - marginw s; d = x + sprite_w s + marginw s
        in if a < 0 \<or> b \<ge> H \<or> c < 0 \<or> d \<ge> W
           then
             let ba = bool_int (a < 0) * - a; bb = mh s - bool_int (b \<ge> H) * (b - H + 1);
                 bc = bool_int (c < 0) * - c; bd = mw s - bool_int (d \<ge> W) * (d - W + 1);
                 a' = max 0 a; b' = min b (H - 1);
                 c' = max 0 c; d' = min d (W - 1)
             in setslice (+) col a' b' c' d' (getslice (mask s) ba bb bc bd)
           else setslice (+) col a b c d (mask s))"

fun accumulate :: "int \<Rightarrow> int \<Rightarrow> array2d \<Rightarrow> description \<Rightarrow> error + array2d" where
  "accumulate H W col [] = Inr col"
| "accumulate H W col (item # rest) =
     (case add_mask H W col item of
        Inl e \<Rightarrow> Inl e
      | Inr col' \<Rightarrow> accumulate H W col' rest)"

text \<open>The test of line 149 on the collider once every mask has been added.\<close>

definition overlap_detected :: "array2d \<Rightarrow> bool" where
  "overlap_detected col \<longleftrightarrow>
     np_any (\<lambda>v. v > 255) col \<or> np_any (\<lambda>v. v = 2) col \<or> np_any (\<lambda>v. v = 3) col"

subsection \<open>Painting\<close>

definition paint_sprite :: "array2d \<Rightarrow> (int \<times> int) \<times> sprite \<Rightarrow> error + array2d" where
  "paint_sprite canvas item =
     (case item of ((x, y), s) \<Rightarrow>
        setslice (\<lambda>old new. new) canvas y (y + sprite_h s) x (x + sprite_w s) (patch s))"

fun paint :: "array2d \<Rightarrow> description \<Rightarrow> error + array2d" where
  "paint canvas [] = Inr canvas"
| "paint canvas (item # rest) =
     (case paint_sprite canvas item of
        Inl e \<Rightarrow> Inl e
      | Inr canvas' \<Rightarrow> paint canvas' rest)"

text \<open>\<^verbatim>\<open>targets[:] = target\<close>: a target of length 1 is broadcast.\<close>

definition assign_targets :: "real list \<Rightarrow> real list \<Rightarrow> error + real list" where
  "assign_targets tgts target =
     (if length target = length tgts then Inr target
      else if length target = 1 then Inr (replicate (length tgts) (hd target))
      else Inl ValueError)"

subsection \<open>The generator \<^verbatim>\<open>__iter__\<close>\<close>

text \<open>
  The variables of the generator that live across samples (the iterator over the source,
  the collider, which exists only when \<^verbatim>\<open>collision_check\<close> was set, and what has been
  printed to stderr: the trial count of each warning), and the variables of one pass of
  the outer loop. Mode A never reads \<open>ntrials\<close>.
\<close>

record 'g frame =
  gen_it :: 'g
  collider :: "array2d option"
  stderr :: "int list"

record locals =
  data :: array2d
  targets :: "real list"
  ntrials :: int

definition iter_start :: "('g, 'p) externals \<Rightarrow> ('g, 'p) SpritePlacer \<Rightarrow> error + 'g frame" where
  "iter_start E sp =
     (let it = gen_iter E (gen_items (gen sp))
      in if collision_check sp
         then (case zeros (sp_h sp) (sp_w sp) of
                 Inl e \<Rightarrow> Inl e
               | Inr col \<Rightarrow> Inr \<lparr>gen_it = it, collider = Some col, stderr = []\<rparr>)
         else Inr \<lparr>gen_it = it, collider = None, stderr = []\<rparr>)"

text \<open>The first statements of the outer loop (lines 112 to 115): the canvas of the sample.\<close>

definition fresh_canvas ::
  "('g, 'p) externals \<Rightarrow> ('g, 'p) SpritePlacer \<Rightarrow> error + (array2d \<times> ('g, 'p) SpritePlacer)" where
  "fresh_canvas E sp =
     (if enable_perlin sp
      then (case perlin_gen sp of
              None \<Rightarrow> Inl AttributeError
            | Some p \<Rightarrow>
                (case get_background_noise E p of
                   (field, p') \<Rightarrow> Inr (field, sp\<lparr>perlin_gen := Some p'\<rparr>)))
      else (case zeros (sp_h sp) (sp_w sp) of
              Inl e \<Rightarrow> Inl e
            | Inr canvas \<Rightarrow> Inr (canvas, sp)))"

text \<open>Mode A (lines 119 to 123): one pull, painted without any test.\<close>

definition mode_a ::
  "('g, 'p) externals \<Rightarrow> ('g, 'p) SpritePlacer \<Rightarrow> 'g frame \<Rightarrow> locals
     \<Rightarrow> error + (('g, 'p) SpritePlacer \<times> 'g frame \<times> locals)" where
  "mode_a E sp fr lc =
     (case gen_next E (gen_it fr) of
        Inl e \<Rightarrow> Inl e
      | Inr ((description, target), it') \<Rightarrow>
          (case paint (data lc) description of
             Inl e \<Rightarrow> Inl e
           | Inr canvas \<Rightarrow>
               (case assign_targets (targets lc) target of
                  Inl e \<Rightarrow> Inl e
                | Inr tgts \<Rightarrow>
                    Inr (sp\<lparr>n_successes := n_successes sp + 1\<rparr>, fr\<lparr>gen_it := it'\<rparr>,
                         lc\<lparr>data := canvas, targets := tgts\<rparr>))))"

text \<open>
  Mode B: one pass of the inner loop (lines 128 to 157), a trial. It ends in
  \<^verbatim>\<open>continue\<close> (rejected), in \<^verbatim>\<open>break\<close> (accepted), or in an exception; an unbound
  \<^verbatim>\<open>collider\<close> raises UnboundLocalError, a NameError.
\<close>

datatype outcome = Accepted | Rejected

definition trial ::
  "('g, 'p) externals \<Rightarrow> ('g, 'p) SpritePlacer \<Rightarrow> 'g frame \<Rightarrow> locals
     \<Rightarrow> error + (outcome \<times> ('g, 'p) SpritePlacer \<times> 'g frame \<times> locals)" where
  "trial E sp fr lc =
     (let fr1 = (if n_successes sp = 0 \<and> ntrials lc \<noteq> 0 \<and> ntrials lc mod 1000 = 0
                 then fr\<lparr>stderr := stderr fr @ [ntrials lc]\<rparr> else fr);
          lc1 = lc\<lparr>ntrials := ntrials lc + 1\<rparr>
      in case gen_next E (gen_it fr1) of
           Inl e \<Rightarrow> Inl e
         | Inr ((description, target), it') \<Rightarrow>
             (case collider fr1 of
                None \<Rightarrow> Inl NameError
              | Some col \<Rightarrow>
                  (case accumulate (sp_h sp) (sp_w sp) (fill col 0) description of
                     Inl e \<Rightarrow> Inl e
                   | Inr col' \<Rightarrow>
                       let fr2 = fr1\<lparr>gen_it := it', collider := Some col'\<rparr>
                       in if overlap_detected col'
                          then Inr (Rejected, sp\<lparr>n_rejections := n_rejections sp + 1\<rparr>, fr2, lc1)
                          else
                            (case paint (data lc1) description of
                               Inl e \<Rightarrow> Inl e
                             | Inr canvas \<Rightarrow>
                                 (case assign_targets (targets lc1) target of
                                    Inl e \<Rightarrow> Inl e
                                  | Inr tgts \<Rightarrow>
                                      Inr (Accepted, sp\<lparr>n_successes := n_successes sp + 1\<rparr>, fr2,
                                           lc1\<lparr>data := canvas, targets := tgts\<rparr>))))))"

text \<open>
  The inner \<^verbatim>\<open>while True\<close>: trials until one is accepted or raises. It need not end, so
  the result is an option, \<open>None\<close> for a loop that runs forever.
\<close>

partial_function (option) trials ::
  "('g, 'p) externals \<Rightarrow> ('g, 'p) SpritePlacer \<times> 'g frame \<times> locals
     \<Rightarrow> (error + (('g, 'p) SpritePlacer \<times> 'g frame \<times> locals)) option" where
  "trials E st =
     (case st of (sp, fr, lc) \<Rightarrow>
        (case trial E sp fr lc of
           Inl e \<Rightarrow> Some (Inl e)
         | Inr (Accepted, st') \<Rightarrow> Some (Inr st')
         | Inr (Rejected, st') \<Rightarrow> trials E st'))"

text \<open>
  One pass of the outer loop, up to the \<^verbatim>\<open>yield\<close>: the sample, the instance and the
  generator's variables after it.
\<close>

definition next_sample ::
  "('g, 'p) externals \<Rightarrow> ('g, 'p) SpritePlacer \<Rightarrow> 'g frame
     \<Rightarrow> (error + ((real list \<times> real list) \<times> ('g, 'p) SpritePlacer \<times> 'g frame)) option" where
  "next_sample E sp fr =
     (case fresh_canvas E sp of
        Inl e \<Rightarrow> Some (Inl e)
      | Inr (canvas, sp1) \<Rightarrow>
          (case zeros1 (nout sp1) of
             Inl e \<Rightarrow> Some (Inl e)
           | Inr tgts \<Rightarrow>
               (let lc = \<lparr>data = canvas, targets = tgts, ntrials = 0\<rparr>
                in case (if \<not> collision_check sp1 then Some (mode_a E sp1 fr lc)
                         else trials E (sp1, fr, lc)) of
                     None \<Rightarrow> None
                   | Some (Inl e) \<Rightarrow> Some (Inl e)
                   | Some (Inr (sp2, fr2, lc2)) \<Rightarrow>
                       (case reshape (data lc2) (nin sp2) of
                          Inl e \<Rightarrow> Some (Inl e)
                        | Inr pixels \<Rightarrow> Some (Inr ((pixels, targets lc2), sp2, fr2))))))"

text \<open>
  A placement as the source is expected to deliver it: positive sizes, margins that are
  not negative, a mask and a patch of the shapes their sizes announce, and the patch
  inside an \<open>H\<close> by \<open>W\<close> canvas.
\<close>

definition wf_placement :: "int \<Rightarrow> int \<Rightarrow> (int \<times> int) \<times> sprite \<Rightarrow> bool" where
  "wf_placement H W item =
     (case item of ((x, y), s) \<Rightarrow>
        0 < sprite_h s \<and> 0 < sprite_w s \<and> 0 \<le> marginh s \<and> 0 \<le> marginw s \<and>
        mh s = sprite_h s + 2 * marginh s \<and> mw s = sprite_w s + 2 * marginw s \<and>
        int (nrows (mask s)) = mh s \<and> int (ncols (mask s)) = mw s \<and>
        int (nrows (patch s)) = sprite_h s \<and> int (ncols (patch s)) = sprite_w s \<and>
        0 \<le> y \<and> y + sprite_h s \<le> H \<and> 0 \<le> x \<and> x + sprite_w s \<le> W)"

subsection \<open>A small concrete source of placements\<close>

text \<open>
  Concrete values on which the definitions can be run: arrays with one value in every
  cell, a sprite whose mask is 1 everywhere on its margined rectangle, a source that
  pulls from a list (and raises StopIteration at its end), and a noise generator whose
  state \<open>(w, h, k)\<close> counts in \<open>k\<close> the fields requested so far and fills field \<open>k\<close> with
  the value \<open>k\<close>.
\<close>

definition const_array :: "nat \<Rightarrow> nat \<Rightarrow> real \<Rightarrow> array2d" where
  "const_array r c v = \<lparr>nrows = r, ncols = c, cell = (\<lambda>i j. v)\<rparr>"

definition block_sprite :: "int \<Rightarrow> int \<Rightarrow> int \<Rightarrow> real \<Rightarrow> sprite" where
  "block_sprite h w m v =
     \<lparr>sprite_h = h, sprite_w = w, marginh = m, marginw = m, mh = h + 2 * m, mw = w + 2 * m,
      patch = const_array (nat h) (nat w) v,
      mask = const_array (nat (h + 2 * m)) (nat (w + 2 * m)) 1\<rparr>"

definition list_env :: "((description \<times> real list) list, nat \<times> nat \<times> nat) externals" where
  "list_env =
     \<lparr>gen_iter = (\<lambda>g. g),
      gen_next = (\<lambda>it. case it of [] \<Rightarrow> Inl StopIteration | item # rest \<Rightarrow> Inr (item, rest)),
      PerlinNoiseGenerator = (\<lambda>w h s. (nat w, nat h, 0)),
      get_background_noise = (\<lambda>p. case p of (w, h, k) \<Rightarrow>
         (\<lparr>nrows = h, ncols = w, cell = (\<lambda>i j. real k)\<rparr>, (w, h, Suc k)))\<rparr>"

definition toy_sprite :: sprite where
  "toy_sprite = block_sprite 1 1 0 9"

definition toy_items :: "(description \<times> real list) list" where
  "toy_items =
     [([((1, 1), toy_sprite), ((1, 1), toy_sprite)], [5]),
      ([((1, 1), toy_sprite)], [7])]"

definition toy_source :: "(description \<times> real list) list source" where
  "toy_source =
     \<lparr>gen_w = 4, gen_h = 4, gen_nout = 1, gen_nclasses = None, gen_out_format = ''array'',
      gen_out_dtype = ''uint8'', gen_items = toy_items\<rparr>"

definition toy_placer :: "((description \<times> real list) list, nat \<times> nat \<times> nat) SpritePlacer" where
  "toy_placer =
     \<lparr>gen = toy_source, collision_check = True, enable_perlin = True, sp_w = 4, sp_h = 4,
      nin = 16, out_format = ''array'', out_dtype = ''uint8'', nout = 1, nclasses = None,
      n_successes = 0, n_rejections = 0, perlin_gen = Some (4, 4, 0)\<rparr>"

definition toy_frame :: "(description \<times> real list) list frame" where
  "toy_frame = \<lparr>gen_it = toy_items, collider = Some (const_array 4 4 0), stderr = []\<rparr>"

definition toy_locals :: locals where
  "toy_locals = \<lparr>data = const_array 4 4 0, targets = [0], ntrials = 0\<rparr>"

section \<open>Properties of corruptor.py\<close>

subsection \<open>Array draws\<close>

lemma sample_n_length: "length (fst (sample_n f n st)) = n"
proof (induction n arbitrary: st)
  case 0
  show ?case by simp
next
  case (Suc n)
  obtain v st1 where f: "f st = (v, st1)" by (cases "f st")
  obtain vs st2 where r: "sample_n f n st1 = (vs, st2)" by (cases "sample_n f n st1")
  have "length vs = n" using Suc.IH [of st1] r by simp
  then show ?case using f r by simp
qed

lemma sample_n_all:
  assumes "\<And>s. P (fst (f s))"
  shows "\<forall>v \<in> set (fst (sample_n f n st)). P v"
proof (induction n arbitrary: st)
  case 0
  show ?case by simp
next
  case (Suc n)
  obtain v st1 where f: "f st = (v, st1)" by (cases "f st")
  have "P v" using assms [of st] f by simp
  moreover have "\<forall>v \<in> set (fst (sample_n f n st1)). P v" by (rule Suc.IH)
  ultimately show ?case using f by (auto split: prod.splits)
qed

lemma sample_n_numeral:
  "sample_n f (numeral k) st =
     (case f st of (v, st1) \<Rightarrow> (case sample_n f (pred_numeral k) st1 of (vs, st2) \<Rightarrow> (v # vs, st2)))"
  by (simp add: numeral_eq_Suc)

lemma py_mod_range: "0 < b \<Longrightarrow> 0 \<le> py_mod a b \<and> py_mod a b < b"
  using floor_divide_lower [of b a] floor_divide_upper [of b a]
  by (simp add: py_mod_def algebra_simps)

lemma binomial_corrupt_Inr:
  "BinomialCorruptor_corrupt R c x = Inr (y, c') \<longleftrightarrow>
     0 \<le> corruption_level c \<and> corruption_level c \<le> 1 \<and>
     y = elementwise (*) \<lparr>shape = shape x, elems = map real_of_int
           (fst (sample_n (\<lambda>s. binomial1 R s 1 (1 - corruption_level c)) (prod_list (shape x)) (s_rng c)))\<rparr> x \<and>
     c' = c\<lparr>s_rng := snd (sample_n (\<lambda>s. binomial1 R s 1 (1 - corruption_level c)) (prod_list (shape x)) (s_rng c))\<rparr>"
  by (auto simp: BinomialCorruptor_corrupt_def RandomState_binomial_def split: prod.splits)

lemma gaussian_corrupt_Inr:
  "GaussianCorruptor_corrupt R c x = Inr (y, c') \<longleftrightarrow>
     0 \<le> corruption_level c \<and>
     y = elementwise (\<lambda>n v. py_mod \<bar>n + v\<bar> 255) \<lparr>shape = shape x, elems =
           fst (sample_n (\<lambda>s. normal1 R s 0 (corruption_level c)) (prod_list (shape x)) (s_rng c))\<rparr> x \<and>
     c' = c\<lparr>s_rng := snd (sample_n (\<lambda>s. normal1 R s 0 (corruption_level c)) (prod_list (shape x)) (s_rng c))\<rparr>"
  by (auto simp: GaussianCorruptor_corrupt_def RandomState_normal_def split: prod.splits)

lemma toy_contract: "bernoulli_contract toy_rng"
  by (simp add: bernoulli_contract_def toy_rng_def)

subsection \<open>Seeding and reproducibility\<close>

lemma snd_call_seq_Cons:
  "snd (call_seq R cls c (x # xs)) = snd (call_seq R cls (next_state R cls c x) xs)"
  by (simp add: next_state_def split: sum.splits prod.splits)

lemma next_state_shape:
  "shape x = shape y \<Longrightarrow> next_state R cls c x = next_state R cls c y"
  by (cases cls)
     (simp_all add: next_state_def BinomialCorruptor_corrupt_def GaussianCorruptor_corrupt_def
        RandomState_binomial_def RandomState_normal_def split: prod.splits)

lemma call_seq_state_shape:
  "map shape xs = map shape ys \<Longrightarrow> snd (call_seq R cls c xs) = snd (call_seq R cls c ys)"
proof (induction xs arbitrary: ys c)
  case Nil
  then show ?case by simp
next
  case (Cons x xs)
  then obtain y ys' where ys: "ys = y # ys'" "shape x = shape y" "map shape xs = map shape ys'"
    by (cases ys) auto
  have "snd (call_seq R cls c (x # xs)) = snd (call_seq R cls (next_state R cls c x) xs)"
    by (rule snd_call_seq_Cons)
  also have "\<dots> = snd (call_seq R cls (next_state R cls c y) ys')"
    using Cons.IH [OF ys(3), of "next_state R cls c x"] next_state_shape [OF ys(2), of R cls c]
    by simp
  also have "\<dots> = snd (call_seq R cls c (y # ys'))"
    by (rule snd_call_seq_Cons [symmetric])
  finally show ?case using ys(1) by simp
qed

lemma construct_Inr:
  "construct R cls level seed = Inr c \<Longrightarrow>
     \<exists>outer k rest. RandomState R seed = Inr outer \<and> randint1 R outer (2 ^ 30) = (k, rest) \<and>
        RandomState R k = Inr (s_rng c) \<and> corruption_level c = level"
  by (cases cls)
     (auto simp: construct_def GaussianCorruptor_init_def Corruptor_init_def
        split: sum.splits prod.splits)
lemma toy_construct:
  "construct toy_rng BinomialCorruptor (1 / 2) 2001 = Inr \<lparr>s_rng = 8, corruption_level = 1 / 2\<rparr>"
  by (simp add: construct_def Corruptor_init_def toy_rng_def)

text \<open>
  Claim C2. Two corruptors of the same class constructed independently with the same level
  and the same seed are in the same state, so they return the same results, call by call,
  on the same inputs; the state of the noise source after a sequence of calls depends on
  the shapes of the inputs only, so the noise drawn is the same for inputs of the same
  shapes; and the noise source is seeded with the one integer below \<open>2 ^ 30\<close> drawn from
  an outer source seeded with the given seed.
\<close>

theorem corruptor_seed_determinism:
  assumes c1: "construct R cls level seed = Inr c1"
      and c2: "construct R cls level seed = Inr c2"
      and sh: "map shape xs = map shape ys"
  shows "call_seq R cls c1 xs = call_seq R cls c2 xs \<and>
         snd (call_seq R cls c1 xs) = snd (call_seq R cls c2 ys) \<and>
         (\<exists>outer k rest. RandomState R seed = Inr outer \<and> randint1 R outer (2 ^ 30) = (k, rest) \<and>
            RandomState R k = Inr (s_rng c1) \<and> RandomState R k = Inr (s_rng c2))"
proof -
  have eq: "c1 = c2" using c1 c2 by simp
  have "\<exists>outer k rest. RandomState R seed = Inr outer \<and> randint1 R outer (2 ^ 30) = (k, rest) \<and>
            RandomState R k = Inr (s_rng c1)"
    using construct_Inr [OF c1] by blast
  then show ?thesis using eq call_seq_state_shape [OF sh] by simp
qed

theorem corruptor_seed_determinism_witness:
  "construct toy_rng BinomialCorruptor (1 / 2) 2001 = Inr \<lparr>s_rng = 8, corruption_level = 1 / 2\<rparr> \<and>
   map shape [\<lparr>shape = [2], elems = [10, 20]\<rparr>] = map shape [\<lparr>shape = [2], elems = [30, 40]\<rparr>] \<and>
   snd (call_seq toy_rng BinomialCorruptor \<lparr>s_rng = 8, corruption_level = 1 / 2\<rparr>
          [\<lparr>shape = [2], elems = [10, 20]\<rparr>]) =
   snd (call_seq toy_rng BinomialCorruptor \<lparr>s_rng = 8, corruption_level = 1 / 2\<rparr>
          [\<lparr>shape = [2], elems = [30, 40]\<rparr>])"
proof -
  have sh: "map shape [\<lparr>shape = [2], elems = [10, 20]\<rparr>] = map shape [\<lparr>shape = [2], elems = [30, 40]\<rparr>]"
    by simp
  show ?thesis
    using corruptor_seed_determinism [OF toy_construct toy_construct sh] toy_construct sh
    by blast
qed

subsection \<open>The Gaussian corruptor\<close>

lemma toy_gauss:
  "GaussianCorruptor_corrupt toy_rng \<lparr>s_rng = 3, corruption_level = 300\<rparr>
     \<lparr>shape = [2, 2], elems = [10, 20, 30, 40]\<rparr> =
   Inr (\<lparr>shape = [2, 2], elems = [55, 110, 60, 5]\<rparr>, \<lparr>s_rng = 7, corruption_level = 300\<rparr>)"
  by (simp add: GaussianCorruptor_corrupt_def RandomState_normal_def toy_rng_def elementwise_def
        py_mod_def sample_n_numeral)

text \<open>
  Claim C3. For an array \<open>x\<close> and a standard deviation (a level that is not negative) the
  Gaussian corruptor returns; whenever it returns, the result has the shape of \<open>x\<close> and
  its cell \<open>i\<close> is \<open>\<bar>n\<^sub>i + x\<^sub>i\<bar>\<close> reduced modulo 255, where \<open>n\<^sub>i\<close> is the \<open>i\<close>-th draw of a
  normal sample of mean 0 and scale \<open>corruption_level\<close>; every cell lies in \<open>[0, 255)\<close>.
\<close>

theorem gaussian_output_range:
  assumes wf: "length (elems x) = prod_list (shape x)"
  shows "(0 \<le> corruption_level c \<longrightarrow> (\<exists>y c'. GaussianCorruptor_corrupt R c x = Inr (y, c'))) \<and>
         (\<forall>y c'. GaussianCorruptor_corrupt R c x = Inr (y, c') \<longrightarrow>
            shape y = shape x \<and> length (elems y) = length (elems x) \<and>
            (\<forall>i < length (elems x).
               elems y ! i =
                 py_mod \<bar>fst (sample_n (\<lambda>s. normal1 R s 0 (corruption_level c))
                               (prod_list (shape x)) (s_rng c)) ! i + elems x ! i\<bar> 255
               \<and> 0 \<le> elems y ! i \<and> elems y ! i < 255))"
  using wf by (auto simp: gaussian_corrupt_Inr elementwise_def sample_n_length py_mod_range)

theorem gaussian_output_range_witness:
  "length (elems \<lparr>shape = [2, 2], elems = [10, 20, 30, 40]\<rparr>) =
     prod_list (shape \<lparr>shape = [2, 2], elems = [10, 20, 30, 40]\<rparr>) \<and>
   GaussianCorruptor_corrupt toy_rng \<lparr>s_rng = 3, corruption_level = 300\<rparr>
     \<lparr>shape = [2, 2], elems = [10, 20, 30, 40]\<rparr> =
   Inr (\<lparr>shape = [2, 2], elems = [55, 110, 60, 5]\<rparr>, \<lparr>s_rng = 7, corruption_level = 300\<rparr>) \<and>
   list_all (\<lambda>e. 0 \<le> e \<and> e < 255) [55, 110, 60, 5 :: real]"
proof -
  let ?x = "\<lparr>shape = [2, 2], elems = [10, 20, 30, 40]\<rparr>"
  let ?y = "\<lparr>shape = [2, 2], elems = [55, 110, 60, 5]\<rparr>"
  let ?c = "\<lparr>s_rng = 3 :: nat, corruption_level = 300\<rparr>"
  have wf: "length (elems ?x) = prod_list (shape ?x)" by simp
  have "\<forall>i < length (elems ?x). 0 \<le> elems ?y ! i \<and> elems ?y ! i < 255"
    using gaussian_output_range [OF wf, of ?c toy_rng] toy_gauss by blast
  then have "list_all (\<lambda>e. 0 \<le> e \<and> e < 255) [55, 110, 60, 5 :: real]"
    by (simp add: list_all_length)
  then show ?thesis using wf toy_gauss by blast
qed

subsection \<open>The binomial corruptor\<close>

lemma toy_binom:
  "BinomialCorruptor_corrupt toy_rng \<lparr>s_rng = 3, corruption_level = 1 / 2\<rparr>
     \<lparr>shape = [2, 2], elems = [10, 20, 30, 40]\<rparr> =
   Inr (\<lparr>shape = [2, 2], elems = [0, 20, 0, 40]\<rparr>, \<lparr>s_rng = 7, corruption_level = 1 / 2\<rparr>)"
  by (simp add: BinomialCorruptor_corrupt_def RandomState_binomial_def toy_rng_def elementwise_def
        sample_n_numeral)

lemma toy_binom0:
  "BinomialCorruptor_corrupt toy_rng \<lparr>s_rng = 3, corruption_level = 0\<rparr>
     \<lparr>shape = [2], elems = [10, 20]\<rparr> =
   Inr (\<lparr>shape = [2], elems = [10, 20]\<rparr>, \<lparr>s_rng = 5, corruption_level = 0\<rparr>)"
  by (simp add: BinomialCorruptor_corrupt_def RandomState_binomial_def toy_rng_def elementwise_def
        sample_n_numeral)

lemma toy_binom1:
  "BinomialCorruptor_corrupt toy_rng \<lparr>s_rng = 3, corruption_level = 1\<rparr>
     \<lparr>shape = [2], elems = [10, 20]\<rparr> =
   Inr (\<lparr>shape = [2], elems = [0, 0]\<rparr>, \<lparr>s_rng = 5, corruption_level = 1\<rparr>)"
  by (simp add: BinomialCorruptor_corrupt_def RandomState_binomial_def toy_rng_def elementwise_def
        sample_n_numeral)

text \<open>
  Claim C4. With \<open>corruption_level = 0\<close> the binomial corruptor returns its input unchanged,
  with \<open>corruption_level = 1\<close> it returns zeros in the shape of the input, and whenever it
  returns, the result is the cell-by-cell product of the input with Bernoulli draws of
  success probability \<open>1 - corruption_level\<close>.
\<close>

theorem binomial_level_0_1:
  assumes R: "bernoulli_contract R" and wf: "length (elems x) = prod_list (shape x)"
  shows "(corruption_level c = 0 \<longrightarrow> (\<exists>c'. BinomialCorruptor_corrupt R c x = Inr (x, c'))) \<and>
         (corruption_level c = 1 \<longrightarrow>
            (\<exists>c'. BinomialCorruptor_corrupt R c x =
               Inr (\<lparr>shape = shape x, elems = replicate (length (elems x)) 0\<rparr>, c'))) \<and>
         (\<forall>y c'. BinomialCorruptor_corrupt R c x = Inr (y, c') \<longrightarrow>
            y = elementwise (*)
                  \<lparr>shape = shape x, elems = map real_of_int
                     (fst (sample_n (\<lambda>s. binomial1 R s 1 (1 - corruption_level c))
                            (prod_list (shape x)) (s_rng c)))\<rparr> x)"
proof (intro conjI impI allI)
  assume l: "corruption_level c = 0"
  let ?vs = "fst (sample_n (\<lambda>s. binomial1 R s 1 (1 - 0)) (prod_list (shape x)) (s_rng c))"
  have "\<forall>v \<in> set ?vs. v = 1"
    by (rule sample_n_all) (use R in \<open>simp add: bernoulli_contract_def\<close>)
  then have "\<forall>i < length (elems x). ?vs ! i = 1" using wf by (simp add: sample_n_length)
  then have "map2 (*) (map real_of_int ?vs) (elems x) = elems x"
    using wf by (auto simp: list_eq_iff_nth_eq sample_n_length)
  then show "\<exists>c'. BinomialCorruptor_corrupt R c x = Inr (x, c')"
    using l by (simp add: binomial_corrupt_Inr elementwise_def)
next
  assume l: "corruption_level c = 1"
  let ?vs = "fst (sample_n (\<lambda>s. binomial1 R s 1 (1 - 1)) (prod_list (shape x)) (s_rng c))"
  have "\<forall>v \<in> set ?vs. v = 0"
    by (rule sample_n_all) (use R in \<open>simp add: bernoulli_contract_def\<close>)
  then have "\<forall>i < length (elems x). ?vs ! i = 0" using wf by (simp add: sample_n_length)
  then have "map2 (*) (map real_of_int ?vs) (elems x) = replicate (length (elems x)) 0"
    using wf by (auto simp: list_eq_iff_nth_eq sample_n_length)
  then show "\<exists>c'. BinomialCorruptor_corrupt R c x =
               Inr (\<lparr>shape = shape x, elems = replicate (length (elems x)) 0\<rparr>, c')"
    using l by (simp add: binomial_corrupt_Inr elementwise_def)
next
  fix y c' assume "BinomialCorruptor_corrupt R c x = Inr (y, c')"
  then show "y = elementwise (*)
                  \<lparr>shape = shape x, elems = map real_of_int
                     (fst (sample_n (\<lambda>s. binomial1 R s 1 (1 - corruption_level c))
                            (prod_list (shape x)) (s_rng c)))\<rparr> x"
    by (simp add: binomial_corrupt_Inr)
qed

theorem binomial_level_0_1_witness:
  "bernoulli_contract toy_rng \<and>
   length (elems \<lparr>shape = [2], elems = [10, 20]\<rparr>) = prod_list (shape \<lparr>shape = [2], elems = [10, 20]\<rparr>) \<and>
   corruption_level \<lparr>s_rng = 3 :: nat, corruption_level = 0\<rparr> = 0 \<and>
   (\<exists>c'. BinomialCorruptor_corrupt toy_rng \<lparr>s_rng = 3, corruption_level = 0\<rparr>
      \<lparr>shape = [2], elems = [10, 20]\<rparr> = Inr (\<lparr>shape = [2], elems = [10, 20]\<rparr>, c')) \<and>
   corruption_level \<lparr>s_rng = 3 :: nat, corruption_level = 1\<rparr> = 1 \<and>
   (\<exists>c'. BinomialCorruptor_corrupt toy_rng \<lparr>s_rng = 3, corruption_level = 1\<rparr>
      \<lparr>shape = [2], elems = [10, 20]\<rparr> = Inr (\<lparr>shape = [2], elems = [0, 0]\<rparr>, c'))"
proof -
  let ?x = "\<lparr>shape = [2], elems = [10, 20]\<rparr>"
  have wf: "length (elems ?x) = prod_list (shape ?x)" by simp
  have l0: "corruption_level \<lparr>s_rng = 3 :: nat, corruption_level = 0\<rparr> = 0" by simp
  have l1: "corruption_level \<lparr>s_rng = 3 :: nat, corruption_level = 1\<rparr> = 1" by simp
  have a: "\<exists>c'. BinomialCorruptor_corrupt toy_rng \<lparr>s_rng = 3, corruption_level = 0\<rparr> ?x = Inr (?x, c')"
    using binomial_level_0_1 [OF toy_contract wf, of "\<lparr>s_rng = 3, corruption_level = 0\<rparr>"] l0
    by blast
  have b: "\<exists>c'. BinomialCorruptor_corrupt toy_rng \<lparr>s_rng = 3, corruption_level = 1\<rparr> ?x =
             Inr (\<lparr>shape = shape ?x, elems = replicate (length (elems ?x)) 0\<rparr>, c')"
    using binomial_level_0_1 [OF toy_contract wf, of "\<lparr>s_rng = 3, corruption_level = 1\<rparr>"] l1
    by blast
  have r: "\<lparr>shape = shape ?x, elems = replicate (length (elems ?x)) 0\<rparr> = \<lparr>shape = [2], elems = [0, 0]\<rparr>"
    by simp
  show ?thesis using a b [unfolded r] wf toy_contract l0 l1 by blast
qed

text \<open>
  Claim C10. For every level in \<open>[0, 1]\<close> and every state of the noise source the binomial
  corruptor returns; whenever it returns (for any level), the result has the shape and the
  number of cells of the input, and each cell is 0 or the cell of the input at that place.
\<close>

theorem binomial_masks_only:
  assumes R: "bernoulli_contract R" and wf: "length (elems x) = prod_list (shape x)"
  shows "(0 \<le> corruption_level c \<and> corruption_level c \<le> 1 \<longrightarrow>
            (\<exists>y c'. BinomialCorruptor_corrupt R c x = Inr (y, c'))) \<and>
         (\<forall>y c'. BinomialCorruptor_corrupt R c x = Inr (y, c') \<longrightarrow>
            shape y = shape x \<and> length (elems y) = length (elems x) \<and>
            (\<forall>i < length (elems x). elems y ! i = 0 \<or> elems y ! i = elems x ! i))"
proof -
  let ?f = "\<lambda>s. binomial1 R s 1 (1 - corruption_level c)"
  let ?vs = "fst (sample_n ?f (prod_list (shape x)) (s_rng c))"
  have "\<forall>v \<in> set ?vs. v = 0 \<or> v = 1"
    by (rule sample_n_all) (use R in \<open>simp add: bernoulli_contract_def\<close>)
  then have "\<forall>i < length (elems x). ?vs ! i = 0 \<or> ?vs ! i = 1"
    using wf by (simp add: sample_n_length)
  then show ?thesis
    using wf by (auto simp: binomial_corrupt_Inr elementwise_def sample_n_length)
qed

theorem binomial_masks_only_witness:
  "bernoulli_contract toy_rng \<and>
   length (elems \<lparr>shape = [2, 2], elems = [10, 20, 30, 40]\<rparr>) =
     prod_list (shape \<lparr>shape = [2, 2], elems = [10, 20, 30, 40]\<rparr>) \<and>
   BinomialCorruptor_corrupt toy_rng \<lparr>s_rng = 3, corruption_level = 1 / 2\<rparr>
     \<lparr>shape = [2, 2], elems = [10, 20, 30, 40]\<rparr> =
   Inr (\<lparr>shape = [2, 2], elems = [0, 20, 0, 40]\<rparr>, \<lparr>s_rng = 7, corruption_level = 1 / 2\<rparr>) \<and>
   list_all2 (\<lambda>v u. v = 0 \<or> v = u) [0, 20, 0, 40 :: real] [10, 20, 30, 40]"
proof -
  let ?x = "\<lparr>shape = [2, 2], elems = [10, 20, 30, 40]\<rparr>"
  let ?y = "\<lparr>shape = [2, 2], elems = [0, 20, 0, 40]\<rparr>"
  let ?c = "\<lparr>s_rng = 3 :: nat, corruption_level = 1 / 2\<rparr>"
  have wf: "length (elems ?x) = prod_list (shape ?x)" by simp
  have "\<forall>i < length (elems ?x). elems ?y ! i = 0 \<or> elems ?y ! i = elems ?x ! i"
    using binomial_masks_only [OF toy_contract wf, of ?c] toy_binom by blast
  then have "list_all2 (\<lambda>v u. v = 0 \<or> v = u) [0, 20, 0, 40 :: real] [10, 20, 30, 40]"
    by (simp add: list_all2_conv_all_nth)
  then show ?thesis using wf toy_binom toy_contract by blast
qed

subsection \<open>The factory\<close>

lemma get_missing: "globals str = None \<Longrightarrow> get globals str = Inl KeyError"
  by (simp add: get_def)

lemma get_corruptor_classes:
  "get module_globals ''Corruptor'' = Inr Corruptor_class"
  "get module_globals ''DummyCorruptor'' = Inr DummyCorruptor_class"
  "get module_globals ''BinomialCorruptor'' = Inr BinomialCorruptor_class"
  "get module_globals ''GaussianCorruptor'' = Inr GaussianCorruptor_class"
  by (simp_all add: get_def module_globals_def Corruptor_class_def DummyCorruptor_class_def
        BinomialCorruptor_class_def GaussianCorruptor_class_def)

lemma get_never_NameError: "get module_globals str \<noteq> Inl NameError"
  by (simp add: get_def module_globals_def Corruptor_class_def DummyCorruptor_class_def
        BinomialCorruptor_class_def GaussianCorruptor_class_def)

text \<open>
  Claim C9, at the names the module binds to something that is not a class: \<^verbatim>\<open>issubclass\<close>
  raises TypeError there, and the NameError of the \<^verbatim>\<open>else\<close> branch is not reached.
\<close>

theorem get_non_class_type_error:
  "get module_globals ''np'' = Inl TypeError \<and>
   get module_globals ''get'' = Inl TypeError \<and>
   get module_globals ''__name__'' = Inl TypeError"
  by (simp add: get_def module_globals_def Corruptor_class_def)

section \<open>Properties of dataset.py\<close>

subsection \<open>Array tests and the effect of one trial\<close>

lemma np_any_iff: "np_any P arr \<longleftrightarrow> (\<exists>i < nrows arr. \<exists>j < ncols arr. P (cell arr i j))"
  by (simp add: np_any_def list_ex_iff Bex_def)

lemmas slice_defs =
  setslice_def getslice_def slice_range_def slice_index_def broadcastable_def broadcast_cell_def
  bool_int_def

lemma trial_Rejected:
  assumes "trial E sp fr lc = Inr (Rejected, sp', fr', lc')"
  shows "sp' = sp\<lparr>n_rejections := n_rejections sp + 1\<rparr> \<and> data lc' = data lc \<and>
         targets lc' = targets lc \<and> ntrials lc' = ntrials lc + 1 \<and>
         (\<exists>col. collider fr' = Some col \<and> overlap_detected col)"
  using assms
  by (auto simp: trial_def Let_def split: sum.splits option.splits if_splits prod.splits)

lemma trial_Accepted:
  assumes "trial E sp fr lc = Inr (Accepted, sp', fr', lc')"
  shows "sp' = sp\<lparr>n_successes := n_successes sp + 1\<rparr> \<and>
         (\<exists>col. collider fr' = Some col \<and> \<not> overlap_detected col) \<and>
         (\<exists>description target it'. gen_next E (gen_it fr) = Inr ((description, target), it') \<and>
            paint (data lc) description = Inr (data lc'))"
  using assms
  by (auto simp: trial_def Let_def split: sum.splits option.splits if_splits prod.splits)

lemma trials_effect:
  assumes "trials E st = Some (Inr st')"
  shows "\<exists>k desc. 0 \<le> k \<and>
           fst st' = (fst st)\<lparr>n_successes := n_successes (fst st) + 1,
                               n_rejections := n_rejections (fst st) + k\<rparr> \<and>
           paint (data (snd (snd st))) desc = Inr (data (snd (snd st')))"
  using assms
proof (induction E st "Inr st' :: error + (('a, 'b) SpritePlacer \<times> 'a frame \<times> locals)"
        arbitrary: st' rule: trials.raw_induct [rotated 1, consumes 1])
  case (1 trials E st)
  obtain sp fr lc where st: "st = (sp, fr, lc)" by (cases st)
  from "1.hyps"(2) st obtain out sp1 fr1 lc1 where
    tr: "trial E sp fr lc = Inr (out, sp1, fr1, lc1)"
    by (auto split: sum.splits)
  show ?case
  proof (cases out)
    case Accepted
    with "1.hyps"(2) st tr have eq: "st' = (sp1, fr1, lc1)" by simp
    from trial_Accepted [OF tr [unfolded Accepted]]
    obtain description where
      "sp1 = sp\<lparr>n_successes := n_successes sp + 1\<rparr>"
      "paint (data lc) description = Inr (data lc1)" by blast
    then show ?thesis using st eq by (intro exI [of _ 0] exI [of _ description]) simp
  next
    case Rejected
    with "1.hyps"(2) st tr have rec: "trials E (sp1, fr1, lc1) = Some (Inr st')" by simp
    from trial_Rejected [OF tr [unfolded Rejected]]
    have r: "sp1 = sp\<lparr>n_rejections := n_rejections sp + 1\<rparr>" "data lc1 = data lc" by simp_all
    from "1.hyps"(1) [OF rec] obtain k desc where
      k: "0 \<le> k"
        "fst st' = sp1\<lparr>n_successes := n_successes sp1 + 1, n_rejections := n_rejections sp1 + k\<rparr>"
        "paint (data lc1) desc = Inr (data (snd (snd st')))" by auto
    show ?thesis using st r k by (intro exI [of _ "k + 1"] exI [of _ desc]) simp
  qed
qed

lemma overlap_detected_iff:
  "overlap_detected col \<longleftrightarrow>
     (\<exists>i < nrows col. \<exists>j < ncols col. 255 < cell col i j \<or> cell col i j = 2 \<or> cell col i j = 3)"
  by (auto simp: overlap_detected_def np_any_iff)

lemma fresh_canvas_effect:
  assumes "fresh_canvas E sp = Inr (canvas, sp1)"
  shows "if enable_perlin sp
         then \<exists>p. perlin_gen sp = Some p \<and> canvas = fst (get_background_noise E p) \<and>
                  sp1 = sp\<lparr>perlin_gen := Some (snd (get_background_noise E p))\<rparr>
         else sp1 = sp \<and> zeros (sp_h sp) (sp_w sp) = Inr canvas"
  using assms
  by (auto simp: fresh_canvas_def split: if_splits option.splits prod.splits sum.splits)

lemma mode_a_effect:
  assumes "mode_a E sp fr lc = Inr (sp', fr', lc')"
  shows "sp' = sp\<lparr>n_successes := n_successes sp + 1\<rparr> \<and>
         (\<exists>desc. paint (data lc) desc = Inr (data lc'))"
  using assms by (auto simp: mode_a_def split: sum.splits prod.splits)

lemma next_sample_effect:
  assumes "next_sample E sp fr = Some (Inr ((pixels, tgts), sp', fr'))"
  shows "\<exists>canvas sp1 k desc painted.
           fresh_canvas E sp = Inr (canvas, sp1) \<and> 0 \<le> k \<and>
           sp' = sp1\<lparr>n_successes := n_successes sp1 + 1, n_rejections := n_rejections sp1 + k\<rparr> \<and>
           paint canvas desc = Inr painted \<and> reshape painted (nin sp1) = Inr pixels"
proof -
  from assms obtain canvas sp1 where fc: "fresh_canvas E sp = Inr (canvas, sp1)"
    by (auto simp: next_sample_def split: sum.splits)
  from assms fc obtain t0 where z: "zeros1 (nout sp1) = Inr t0"
    by (auto simp: next_sample_def split: sum.splits)
  let ?lc = "\<lparr>data = canvas, targets = t0, ntrials = 0\<rparr>"
  from assms fc z obtain sp2 fr2 lc2 where
    body: "(if \<not> collision_check sp1 then Some (mode_a E sp1 fr ?lc) else trials E (sp1, fr, ?lc))
             = Some (Inr (sp2, fr2, lc2))"
    and rs: "reshape (data lc2) (nin sp2) = Inr pixels" and eq: "sp' = sp2"
    by (auto simp: next_sample_def Let_def split: sum.splits option.splits)
  have "\<exists>k desc. 0 \<le> k \<and>
          sp2 = sp1\<lparr>n_successes := n_successes sp1 + 1, n_rejections := n_rejections sp1 + k\<rparr> \<and>
          paint canvas desc = Inr (data lc2)"
  proof (cases "collision_check sp1")
    case False
    with body have "mode_a E sp1 fr ?lc = Inr (sp2, fr2, lc2)" by simp
    from mode_a_effect [OF this] obtain desc where
      "sp2 = sp1\<lparr>n_successes := n_successes sp1 + 1\<rparr>" "paint (data ?lc) desc = Inr (data lc2)"
      by blast
    then show ?thesis by (intro exI [of _ 0] exI [of _ desc]) simp
  next
    case True
    with body have "trials E (sp1, fr, ?lc) = Some (Inr (sp2, fr2, lc2))" by simp
    from trials_effect [OF this] show ?thesis by simp
  qed
  then obtain k desc where
    "0 \<le> k" "sp2 = sp1\<lparr>n_successes := n_successes sp1 + 1, n_rejections := n_rejections sp1 + k\<rparr>"
    "paint canvas desc = Inr (data lc2)" by blast
  with fc rs eq show ?thesis by (intro exI [of _ canvas] exI [of _ sp1] exI [of _ k]) auto
qed

subsection \<open>Slices of well-formed placements\<close>

lemma axis_inside:
  fixes n :: nat and lo hi :: int
  assumes "0 \<le> lo" "lo \<le> hi" "hi \<le> int n"
  shows "slice_range n lo hi = (nat lo, nat (hi - lo))"
  using assms by (auto simp: slice_range_def slice_index_def Let_def)

lemma axis_clip_dst:
  fixes n :: nat and p s m :: int
  assumes "0 < s" "0 \<le> m" "0 \<le> p" "p + s \<le> int n"
  shows "slice_range n (max 0 (p - m)) (min (p + s + m) (int n - 1)) =
           (nat (max 0 (p - m)), nat (min (p + s + m) (int n - 1) - max 0 (p - m)))"
  using assms by (intro axis_inside) auto

lemma axis_clip_src:
  fixes n :: nat and p s m :: int
  assumes "0 < s" "0 \<le> m" "0 \<le> p" "p + s \<le> int n"
  shows "slice_range (nat (s + 2 * m)) (bool_int (p - m < 0) * - (p - m))
            (s + 2 * m - bool_int (p + s + m \<ge> int n) * (p + s + m - int n + 1)) =
           (nat (max 0 (p - m) - (p - m)), nat (min (p + s + m) (int n - 1) - max 0 (p - m)))"
proof -
  have "slice_range (nat (s + 2 * m)) (bool_int (p - m < 0) * - (p - m))
            (s + 2 * m - bool_int (p + s + m \<ge> int n) * (p + s + m - int n + 1)) =
        (nat (bool_int (p - m < 0) * - (p - m)),
         nat ((s + 2 * m - bool_int (p + s + m \<ge> int n) * (p + s + m - int n + 1))
              - bool_int (p - m < 0) * - (p - m)))"
    using assms by (intro axis_inside) (auto simp: bool_int_def)
  also have "\<dots> = (nat (max 0 (p - m) - (p - m)), nat (min (p + s + m) (int n - 1) - max 0 (p - m)))"
    using assms by (auto simp: bool_int_def max_def min_def)
  finally show ?thesis .
qed

lemma setslice_same_shape:
  assumes "slice_range (nrows dst) i0 i1 = (r0, nr)" "slice_range (ncols dst) j0 j1 = (c0, nc)"
      and "nrows src = nr" "ncols src = nc"
  shows "\<exists>dst'. setslice f dst i0 i1 j0 j1 src = Inr dst' \<and>
           nrows dst' = nrows dst \<and> ncols dst' = ncols dst \<and>
           (\<forall>i j. cell dst' i j =
              (if r0 \<le> i \<and> i < r0 + nr \<and> c0 \<le> j \<and> j < c0 + nc
               then f (cell dst i j) (cell src (i - r0) (j - c0)) else cell dst i j))"
proof -
  have bc: "broadcast_cell src (i - r0) (j - c0) = cell src (i - r0) (j - c0)"
    if "r0 \<le> i" "i < r0 + nr" "c0 \<le> j" "j < c0 + nc" for i j
  proof -
    have "nrows src = 1 \<Longrightarrow> i - r0 = 0" "ncols src = 1 \<Longrightarrow> j - c0 = 0"
      using that assms(3,4) by auto
    then show ?thesis by (auto simp: broadcast_cell_def)
  qed
  show ?thesis
    using assms bc by (simp add: setslice_def broadcastable_def)
qed

lemma getslice_eq:
  assumes "slice_range (nrows arr) i0 i1 = (r0, nr)" "slice_range (ncols arr) j0 j1 = (c0, nc)"
  shows "getslice arr i0 i1 j0 j1 =
           \<lparr>nrows = nr, ncols = nc, cell = (\<lambda>i j. cell arr (r0 + i) (c0 + j))\<rparr>"
  using assms by (simp add: getslice_def)

lemma add_mask_unfold:
  "add_mask H W col ((x, y), s) =
     (if y - marginh s < 0 \<or> y + sprite_h s + marginh s \<ge> H \<or>
         x - marginw s < 0 \<or> x + sprite_w s + marginw s \<ge> W
      then setslice (+) col (max 0 (y - marginh s)) (min (y + sprite_h s + marginh s) (H - 1))
             (max 0 (x - marginw s)) (min (x + sprite_w s + marginw s) (W - 1))
             (getslice (mask s)
                (bool_int (y - marginh s < 0) * - (y - marginh s))
                (mh s - bool_int (y + sprite_h s + marginh s \<ge> H)
                          * (y + sprite_h s + marginh s - H + 1))
                (bool_int (x - marginw s < 0) * - (x - marginw s))
                (mw s - bool_int (x + sprite_w s + marginw s \<ge> W)
                          * (x + sprite_w s + marginw s - W + 1)))
      else setslice (+) col (y - marginh s) (y + sprite_h s + marginh s)
             (x - marginw s) (x + sprite_w s + marginw s) (mask s))"
  by (simp add: add_mask_def Let_def)

lemma clipped_index:
  fixes i :: nat and lo lo' hi' :: int
  assumes "lo' = max 0 lo"
  shows "(nat lo' \<le> i \<and> i < nat lo' + nat (hi' - lo')) \<longleftrightarrow> (lo' \<le> int i \<and> int i < hi')"
    and "lo' \<le> int i \<Longrightarrow> nat (lo' - lo) + (i - nat lo') = nat (int i - lo)"
  using assms by auto

text \<open>
  What the accumulation step adds for a well-formed placement on a canvas-sized collider:
  the mask, on the footprint cut to the rows \<open>[0, H - 1)\<close> and the columns \<open>[0, W - 1)\<close>.
\<close>

lemma add_mask_wf:
  assumes wf: "wf_placement H W ((x, y), s)"
      and sh: "int (nrows col) = H" "int (ncols col) = W"
  shows "\<exists>col'. add_mask H W col ((x, y), s) = Inr col' \<and>
           nrows col' = nrows col \<and> ncols col' = ncols col \<and>
           (\<forall>i j. cell col' i j =
              (if max 0 (y - marginh s) \<le> int i \<and> int i < min (y + sprite_h s + marginh s) (H - 1) \<and>
                  max 0 (x - marginw s) \<le> int j \<and> int j < min (x + sprite_w s + marginw s) (W - 1)
               then cell col i j +
                    cell (mask s) (nat (int i - (y - marginh s))) (nat (int j - (x - marginw s)))
               else cell col i j))"
proof -
  define a b c d where "a = y - marginh s" and "b = y + sprite_h s + marginh s"
    and "c = x - marginw s" and "d = x + sprite_w s + marginw s"
  define a' b' c' d' where "a' = max 0 a" and "b' = min b (H - 1)"
    and "c' = max 0 c" and "d' = min d (W - 1)"
  note defs = a_def b_def c_def d_def a'_def b'_def c'_def d'_def
  from wf have h: "0 < sprite_h s" "0 \<le> marginh s" "0 \<le> y" "y + sprite_h s \<le> int (nrows col)"
    and w: "0 < sprite_w s" "0 \<le> marginw s" "0 \<le> x" "x + sprite_w s \<le> int (ncols col)"
    and m: "mh s = sprite_h s + 2 * marginh s" "mw s = sprite_w s + 2 * marginw s"
      "nrows (mask s) = nat (sprite_h s + 2 * marginh s)"
      "ncols (mask s) = nat (sprite_w s + 2 * marginw s)"
    using sh by (auto simp: wf_placement_def)
  have "\<exists>col'. add_mask H W col ((x, y), s) = Inr col' \<and>
           nrows col' = nrows col \<and> ncols col' = ncols col \<and>
           (\<forall>i j. cell col' i j =
              (if nat a' \<le> i \<and> i < nat a' + nat (b' - a') \<and> nat c' \<le> j \<and> j < nat c' + nat (d' - c')
               then cell col i j + cell (mask s) (nat (a' - a) + (i - nat a')) (nat (c' - c) + (j - nat c'))
               else cell col i j))"
  proof (cases "a < 0 \<or> b \<ge> H \<or> c < 0 \<or> d \<ge> W")
    case True
    let ?src = "getslice (mask s) (bool_int (a < 0) * - a) (mh s - bool_int (b \<ge> H) * (b - H + 1))
                  (bool_int (c < 0) * - c) (mw s - bool_int (d \<ge> W) * (d - W + 1))"
    have dr: "slice_range (nrows col) a' b' = (nat a', nat (b' - a'))"
      using axis_clip_dst [OF h] sh unfolding defs by simp
    have dc: "slice_range (ncols col) c' d' = (nat c', nat (d' - c'))"
      using axis_clip_dst [OF w] sh unfolding defs by simp
    have sr: "slice_range (nrows (mask s)) (bool_int (a < 0) * - a)
                (mh s - bool_int (b \<ge> H) * (b - H + 1)) = (nat (a' - a), nat (b' - a'))"
      using axis_clip_src [OF h] sh m unfolding defs by simp
    have sc: "slice_range (ncols (mask s)) (bool_int (c < 0) * - c)
                (mw s - bool_int (d \<ge> W) * (d - W + 1)) = (nat (c' - c), nat (d' - c'))"
      using axis_clip_src [OF w] sh m unfolding defs by simp
    have src: "nrows ?src = nat (b' - a')" "ncols ?src = nat (d' - c')"
      "\<And>u v. cell ?src u v = cell (mask s) (nat (a' - a) + u) (nat (c' - c) + v)"
      unfolding getslice_eq [OF sr sc] by simp_all
    have "add_mask H W col ((x, y), s) = setslice (+) col a' b' c' d' ?src"
      using True unfolding add_mask_unfold defs by (simp only: if_True)
    then show ?thesis
      using setslice_same_shape [OF dr dc src(1,2), of "(+)"] by (simp only: src(3))
  next
    case False
    then have in_range: "0 \<le> a" "b < H" "0 \<le> c" "d < W" by auto
    then have eq: "a' = a" "b' = b" "c' = c" "d' = d" by (auto simp: defs)
    have dr: "slice_range (nrows col) a b = (nat a, nat (b - a))"
      using in_range sh h by (intro axis_inside) (auto simp: defs)
    have dc: "slice_range (ncols col) c d = (nat c, nat (d - c))"
      using in_range sh w by (intro axis_inside) (auto simp: defs)
    have ms: "nrows (mask s) = nat (b - a)" "ncols (mask s) = nat (d - c)"
      using m by (simp_all add: defs)
    have "add_mask H W col ((x, y), s) = setslice (+) col a b c d (mask s)"
      using False unfolding add_mask_unfold defs by (simp only: if_False)
    then show ?thesis
      using setslice_same_shape [OF dr dc ms, of "(+)"] unfolding eq
      by (simp only: diff_self nat_0 add_0)
  qed
  then obtain col' where am: "add_mask H W col ((x, y), s) = Inr col'"
    and shape': "nrows col' = nrows col" "ncols col' = ncols col"
    and cells: "\<And>i j. cell col' i j =
              (if nat a' \<le> i \<and> i < nat a' + nat (b' - a') \<and> nat c' \<le> j \<and> j < nat c' + nat (d' - c')
               then cell col i j + cell (mask s) (nat (a' - a) + (i - nat a')) (nat (c' - c) + (j - nat c'))
               else cell col i j)"
    by blast
  have "cell col' i j =
          (if a' \<le> int i \<and> int i < b' \<and> c' \<le> int j \<and> int j < d'
           then cell col i j + cell (mask s) (nat (int i - a)) (nat (int j - c))
           else cell col i j)" for i j
  proof -
    have r1: "(nat a' \<le> i \<and> i < nat a' + nat (b' - a')) \<longleftrightarrow> (a' \<le> int i \<and> int i < b')"
      by (rule clipped_index(1) [OF a'_def])
    have c1: "(nat c' \<le> j \<and> j < nat c' + nat (d' - c')) \<longleftrightarrow> (c' \<le> int j \<and> int j < d')"
      by (rule clipped_index(1) [OF c'_def])
    have r2: "a' \<le> int i \<Longrightarrow> nat (a' - a) + (i - nat a') = nat (int i - a)"
      by (rule clipped_index(2) [OF a'_def])
    have c2: "c' \<le> int j \<Longrightarrow> nat (c' - c) + (j - nat c') = nat (int j - c)"
      by (rule clipped_index(2) [OF c'_def])
    have "cell col' i j =
          (if (nat a' \<le> i \<and> i < nat a' + nat (b' - a')) \<and> (nat c' \<le> j \<and> j < nat c' + nat (d' - c'))
           then cell col i j + cell (mask s) (nat (a' - a) + (i - nat a')) (nat (c' - c) + (j - nat c'))
           else cell col i j)"
      unfolding cells [of i j] by (simp only: conj_assoc)
    then have X: "cell col' i j =
          (if (a' \<le> int i \<and> int i < b') \<and> (c' \<le> int j \<and> int j < d')
           then cell col i j + cell (mask s) (nat (a' - a) + (i - nat a')) (nat (c' - c) + (j - nat c'))
           else cell col i j)"
      unfolding r1 c1 .
    show ?thesis
    proof (cases "(a' \<le> int i \<and> int i < b') \<and> (c' \<le> int j \<and> int j < d')")
      case True
      then have "nat (a' - a) + (i - nat a') = nat (int i - a)"
        "nat (c' - c) + (j - nat c') = nat (int j - c)"
        using r2 c2 by blast+
      with X True show ?thesis by (simp only: if_True conj_assoc)
    next
      case False
      with X show ?thesis by (simp only: if_False conj_assoc)
    qed
  qed
  then show ?thesis using am shape' unfolding defs by blast
qed

lemma add_mask_last_row_column_untouched:
  assumes "wf_placement H W ((x, y), s)" and "int (nrows col) = H" "int (ncols col) = W"
  shows "\<exists>col'. add_mask H W col ((x, y), s) = Inr col' \<and>
           nrows col' = nrows col \<and> ncols col' = ncols col \<and>
           (\<forall>i j. int i = H - 1 \<or> int j = W - 1 \<longrightarrow> cell col' i j = cell col i j)"
proof -
  from add_mask_wf [OF assms] obtain col' where
    am: "add_mask H W col ((x, y), s) = Inr col'" "nrows col' = nrows col" "ncols col' = ncols col"
    and cells: "\<And>i j. cell col' i j =
              (if max 0 (y - marginh s) \<le> int i \<and> int i < min (y + sprite_h s + marginh s) (H - 1) \<and>
                  max 0 (x - marginw s) \<le> int j \<and> int j < min (x + sprite_w s + marginw s) (W - 1)
               then cell col i j +
                    cell (mask s) (nat (int i - (y - marginh s))) (nat (int j - (x - marginw s)))
               else cell col i j)"
    by blast
  have "cell col' i j = cell col i j" if "int i = H - 1 \<or> int j = W - 1" for i j
    unfolding cells [of i j] using that by auto
  with am show ?thesis by blast
qed

lemma accumulate_wf:
  assumes "\<forall>item \<in> set desc. wf_placement H W item"
      and "int (nrows col) = H" "int (ncols col) = W"
  shows "\<exists>col'. accumulate H W col desc = Inr col' \<and>
           nrows col' = nrows col \<and> ncols col' = ncols col \<and>
           (\<forall>i j. int i = H - 1 \<or> int j = W - 1 \<longrightarrow> cell col' i j = cell col i j)"
  using assms
proof (induction desc arbitrary: col)
  case Nil
  then show ?case by simp
next
  case (Cons item desc)
  obtain x y s where item: "item = ((x, y), s)" by (cases item) auto
  from Cons.prems have wf: "wf_placement H W ((x, y), s)" by (simp add: item)
  from add_mask_last_row_column_untouched [OF wf Cons.prems(2,3)] obtain col1 where
    1: "add_mask H W col ((x, y), s) = Inr col1" "nrows col1 = nrows col" "ncols col1 = ncols col"
       "\<forall>i j. int i = H - 1 \<or> int j = W - 1 \<longrightarrow> cell col1 i j = cell col i j"
    by blast
  have "\<exists>col'. accumulate H W col1 desc = Inr col' \<and>
           nrows col' = nrows col1 \<and> ncols col' = ncols col1 \<and>
           (\<forall>i j. int i = H - 1 \<or> int j = W - 1 \<longrightarrow> cell col' i j = cell col1 i j)"
    using Cons.prems 1 by (intro Cons.IH) simp_all
  then obtain col' where
    2: "accumulate H W col1 desc = Inr col'" "nrows col' = nrows col1" "ncols col' = ncols col1"
       "\<forall>i j. int i = H - 1 \<or> int j = W - 1 \<longrightarrow> cell col' i j = cell col1 i j"
    by blast
  show ?case using 1 2 by (simp add: item)
qed

lemma paint_sprite_wf:
  assumes wf: "wf_placement H W ((x, y), s)"
      and sh: "int (nrows canvas) = H" "int (ncols canvas) = W"
  shows "\<exists>canvas'. paint_sprite canvas ((x, y), s) = Inr canvas' \<and>
           nrows canvas' = nrows canvas \<and> ncols canvas' = ncols canvas"
proof -
  from wf sh have h: "0 \<le> y" "y \<le> y + sprite_h s" "y + sprite_h s \<le> int (nrows canvas)"
    and w: "0 \<le> x" "x \<le> x + sprite_w s" "x + sprite_w s \<le> int (ncols canvas)"
    and p: "nrows (patch s) = nat (y + sprite_h s - y)" "ncols (patch s) = nat (x + sprite_w s - x)"
    by (auto simp: wf_placement_def)
  from setslice_same_shape [OF axis_inside [OF h] axis_inside [OF w] p, of "\<lambda>old new. new"]
  show ?thesis by (auto simp: paint_sprite_def)
qed

lemma paint_wf:
  assumes "\<forall>item \<in> set desc. wf_placement H W item"
      and "int (nrows canvas) = H" "int (ncols canvas) = W"
  shows "\<exists>canvas'. paint canvas desc = Inr canvas' \<and>
           nrows canvas' = nrows canvas \<and> ncols canvas' = ncols canvas"
  using assms
proof (induction desc arbitrary: canvas)
  case Nil
  then show ?case by simp
next
  case (Cons item desc)
  obtain x y s where item: "item = ((x, y), s)" by (cases item) auto
  from Cons.prems have wf: "wf_placement H W ((x, y), s)" by (simp add: item)
  from paint_sprite_wf [OF wf Cons.prems(2,3)] obtain c1 where
    1: "paint_sprite canvas ((x, y), s) = Inr c1" "nrows c1 = nrows canvas" "ncols c1 = ncols canvas"
    by blast
  have "\<exists>canvas'. paint c1 desc = Inr canvas' \<and> nrows canvas' = nrows c1 \<and> ncols canvas' = ncols c1"
    using Cons.prems 1 by (intro Cons.IH) simp_all
  then show ?case using 1 by (auto simp: item)
qed

lemma trial_returns:
  assumes pull: "gen_next E (gen_it fr) = Inr ((desc, target), it')"
      and wf: "\<forall>item \<in> set desc. wf_placement (sp_h sp) (sp_w sp) item"
      and col: "collider fr = Some col" "int (nrows col) = sp_h sp" "int (ncols col) = sp_w sp"
      and canvas: "int (nrows (data lc)) = sp_h sp" "int (ncols (data lc)) = sp_w sp"
      and tgt: "length target = length (targets lc) \<or> length target = 1"
  shows "\<exists>out sp' fr' lc'. trial E sp fr lc = Inr (out, sp', fr', lc')"
proof -
  have "int (nrows (fill col 0)) = sp_h sp" "int (ncols (fill col 0)) = sp_w sp"
    using col by (simp_all add: fill_def)
  from accumulate_wf [OF wf this] obtain col' where
    acc: "accumulate (sp_h sp) (sp_w sp) (fill col 0) desc = Inr col'" by blast
  from paint_wf [OF wf canvas] obtain canvas' where
    pt: "paint (data lc) desc = Inr canvas'" by blast
  have "\<exists>tg. assign_targets (targets lc) target = Inr tg"
    using tgt by (cases "length target = length (targets lc)") (simp_all add: assign_targets_def)
  then obtain tg where at: "assign_targets (targets lc) target = Inr tg" by blast
  show ?thesis
    using pull col(1) acc pt at by (simp add: trial_def Let_def)
qed

subsection \<open>A run on the concrete source\<close>

lemma toy_init: "SpritePlacer_init list_env toy_source True True = Inr toy_placer"
  by (simp add: SpritePlacer_init_def toy_source_def toy_placer_def list_env_def)

lemma toy_iter_start: "iter_start list_env toy_placer = Inr toy_frame"
  by (simp add: iter_start_def toy_placer_def toy_frame_def toy_source_def list_env_def zeros_def
      const_array_def)

lemmas toy_defs =
  toy_placer_def toy_frame_def toy_source_def toy_items_def toy_sprite_def block_sprite_def
  const_array_def list_env_def

lemmas run_defs =
  trial_def add_mask_def paint_sprite_def assign_targets_def overlap_detected_def np_any_def
  fill_def reshape_def zeros_def zeros1_def slice_defs

lemma toy_run:
  "(case next_sample list_env toy_placer toy_frame of
      Some (Inr ((pixels, tgts), sp1, fr1)) \<Rightarrow>
        pixels = [0, 0, 0, 0, 0, 9, 0, 0, 0, 0, 0, 0, 0, 0, 0, 0] \<and> tgts = [7] \<and>
        n_successes sp1 = 1 \<and> n_rejections sp1 = 1 \<and> perlin_gen sp1 = Some (4, 4, 1)
    | _ \<Rightarrow> False)"
  apply (simp add: next_sample_def fresh_canvas_def toy_defs zeros1_def)
  apply (subst trials.simps)
  apply (simp add: run_defs upt_rec)
  apply (subst trials.simps)
  apply (simp add: run_defs upt_rec)
  done

lemma toy_run_ex:
  "\<exists>pixels tgts sp1 fr1.
     next_sample list_env toy_placer toy_frame = Some (Inr ((pixels, tgts), sp1, fr1))"
  using toy_run by (auto split: option.splits sum.splits)

lemma toy_trial_rejected:
  "\<exists>sp' fr' lc'. trial list_env toy_placer toy_frame toy_locals = Inr (Rejected, sp', fr', lc')"
  by (simp add: toy_defs toy_locals_def run_defs upt_rec)

lemma toy_trial_accepted:
  "\<exists>sp' fr' lc'. trial list_env toy_placer (toy_frame\<lparr>gen_it := tl toy_items\<rparr>) toy_locals
      = Inr (Accepted, sp', fr', lc')"
  by (simp add: toy_defs toy_locals_def run_defs upt_rec)

lemma toy_trial_inputs:
  "gen_next list_env (gen_it toy_frame)
     = Inr (([((1, 1), toy_sprite), ((1, 1), toy_sprite)], [5]), tl toy_items)"
  "list_all (wf_placement (sp_h toy_placer) (sp_w toy_placer))
     [((1, 1), toy_sprite), ((1, 1), toy_sprite)]"
  "collider toy_frame = Some (const_array 4 4 0)"
  "int (nrows (const_array 4 4 0)) = sp_h toy_placer"
  "int (ncols (const_array 4 4 0)) = sp_w toy_placer"
  "int (nrows (data toy_locals)) = sp_h toy_placer"
  "int (ncols (data toy_locals)) = sp_w toy_placer"
  "length [5 :: real] = length (targets toy_locals)"
  by (simp_all add: toy_defs toy_locals_def wf_placement_def)

subsection \<open>Construction\<close>

text \<open>
  Claim C8. Whatever the source, the flags and the code outside the module, constructing a
  SpritePlacer from a source whose \<^verbatim>\<open>out_format\<close> is not \<^verbatim>\<open>'array'\<close> raises
  AssertionError; the constructor never pulls from the source.
\<close>

theorem init_rejects_other_out_format:
  "gen_out_format g \<noteq> ''array'' \<Longrightarrow> SpritePlacer_init E g cc ep = Inl AssertionError"
  by (simp add: SpritePlacer_init_def)

theorem init_rejects_other_out_format_witness:
  "gen_out_format (toy_source\<lparr>gen_out_format := ''list''\<rparr>) \<noteq> ''array'' \<and>
   SpritePlacer_init list_env (toy_source\<lparr>gen_out_format := ''list''\<rparr>) True True
     = Inl AssertionError"
proof -
  have h: "gen_out_format (toy_source\<lparr>gen_out_format := ''list''\<rparr>) \<noteq> ''array''" by simp
  show ?thesis
    using h init_rejects_other_out_format [OF h, of list_env True True] by blast
qed

subsection \<open>Counters\<close>

text \<open>
  Claim C6. \<^verbatim>\<open>rejection_rate\<close> returns \<open>n_rejections / (n_successes + n_rejections)\<close> when
  the counters do not sum to zero and \<^verbatim>\<open>None\<close> when both are zero, and it leaves the
  instance as it was.
\<close>

theorem rejection_rate_value:
  "(n_successes sp + n_rejections sp \<noteq> 0 \<longrightarrow>
      fst (rejection_rate sp) =
        Some (real_of_int (n_rejections sp) / real_of_int (n_successes sp + n_rejections sp))) \<and>
   (n_successes sp = 0 \<and> n_rejections sp = 0 \<longrightarrow> fst (rejection_rate sp) = None) \<and>
   snd (rejection_rate sp) = sp"
  by (simp add: rejection_rate_def Let_def)

theorem rejection_rate_value_witness:
  "n_successes (toy_placer\<lparr>n_successes := 3, n_rejections := 1\<rparr>)
     + n_rejections (toy_placer\<lparr>n_successes := 3, n_rejections := 1\<rparr>) \<noteq> 0 \<and>
   fst (rejection_rate (toy_placer\<lparr>n_successes := 3, n_rejections := 1\<rparr>)) = Some (1 / 4) \<and>
   n_successes toy_placer = 0 \<and> n_rejections toy_placer = 0 \<and>
   fst (rejection_rate toy_placer) = None \<and>
   snd (rejection_rate toy_placer) = toy_placer"
proof -
  let ?sp = "toy_placer\<lparr>n_successes := 3, n_rejections := 1\<rparr>"
  have a: "n_successes ?sp + n_rejections ?sp \<noteq> 0" by simp
  have b: "n_successes toy_placer = 0 \<and> n_rejections toy_placer = 0"
    by (simp add: toy_placer_def)
  have "fst (rejection_rate ?sp) =
          Some (real_of_int (n_rejections ?sp) / real_of_int (n_successes ?sp + n_rejections ?sp))"
    using rejection_rate_value [of ?sp] a by blast
  then have c: "fst (rejection_rate ?sp) = Some (1 / 4)" by simp
  have d: "fst (rejection_rate toy_placer) = None"
    using rejection_rate_value [of toy_placer] b by blast
  have e: "snd (rejection_rate toy_placer) = toy_placer"
    using rejection_rate_value [of toy_placer] by blast
  show ?thesis using a b c d e by blast
qed

text \<open>
  Claim C5. Both counters are zero after construction. A trial of Mode B returns whenever
  the source delivers a well-formed description with a target that fits, and a trial
  that returns is either rejected, and then a cell of the collider is above 255 or equals
  2 or 3, \<open>n_rejections\<close> has grown by one and \<open>n_successes\<close> and the canvas are unchanged;
  or accepted, and then no cell is, \<open>n_successes\<close> has grown by one and \<open>n_rejections\<close> is
  unchanged. Producing a sample adds one to \<open>n_successes\<close> and never lowers
  \<open>n_rejections\<close>, and \<^verbatim>\<open>rejection_rate\<close> changes neither.
\<close>

theorem trial_counters:
  "(SpritePlacer_init E g cc ep = Inr sp0 \<longrightarrow> n_successes sp0 = 0 \<and> n_rejections sp0 = 0) \<and>
   (gen_next E (gen_it fr) = Inr ((desc, target), it') \<and>
    (\<forall>item \<in> set desc. wf_placement (sp_h sp) (sp_w sp) item) \<and>
    collider fr = Some col \<and> int (nrows col) = sp_h sp \<and> int (ncols col) = sp_w sp \<and>
    int (nrows (data lc)) = sp_h sp \<and> int (ncols (data lc)) = sp_w sp \<and>
    (length target = length (targets lc) \<or> length target = 1) \<longrightarrow>
      (\<exists>out sp' fr' lc'. trial E sp fr lc = Inr (out, sp', fr', lc'))) \<and>
   (trial E sp fr lc = Inr (out, sp', fr', lc') \<longrightarrow>
      (out = Rejected \<and>
       (\<exists>col. collider fr' = Some col \<and>
          (\<exists>i < nrows col. \<exists>j < ncols col.
             255 < cell col i j \<or> cell col i j = 2 \<or> cell col i j = 3)) \<and>
       n_rejections sp' = n_rejections sp + 1 \<and> n_successes sp' = n_successes sp \<and>
       data lc' = data lc)
    \<or> (out = Accepted \<and>
       (\<exists>col. collider fr' = Some col \<and>
          \<not> (\<exists>i < nrows col. \<exists>j < ncols col.
                255 < cell col i j \<or> cell col i j = 2 \<or> cell col i j = 3)) \<and>
       n_successes sp' = n_successes sp + 1 \<and> n_rejections sp' = n_rejections sp)) \<and>
   (next_sample E sp fr = Some (Inr (smp, sp2, fr2)) \<longrightarrow>
      n_successes sp2 = n_successes sp + 1 \<and> n_rejections sp \<le> n_rejections sp2) \<and>
   snd (rejection_rate sp) = sp"
proof (intro conjI impI)
  assume "SpritePlacer_init E g cc ep = Inr sp0"
  then have "sp0 = \<lparr>gen = g, collision_check = cc, enable_perlin = ep,
                sp_w = gen_w g, sp_h = gen_h g, nin = gen_w g * gen_h g,
                out_format = gen_out_format g, out_dtype = gen_out_dtype g,
                nout = gen_nout g, nclasses = gen_nclasses g,
                n_successes = 0, n_rejections = 0,
                perlin_gen = (if ep then Some (PerlinNoiseGenerator E (gen_w g) (gen_h g) 32)
                              else None)\<rparr>"
    by (simp add: SpritePlacer_init_def split: if_splits)
  then show "n_successes sp0 = 0" "n_rejections sp0 = 0" by simp_all
next
  assume "gen_next E (gen_it fr) = Inr ((desc, target), it') \<and>
    (\<forall>item \<in> set desc. wf_placement (sp_h sp) (sp_w sp) item) \<and>
    collider fr = Some col \<and> int (nrows col) = sp_h sp \<and> int (ncols col) = sp_w sp \<and>
    int (nrows (data lc)) = sp_h sp \<and> int (ncols (data lc)) = sp_w sp \<and>
    (length target = length (targets lc) \<or> length target = 1)"
  then show "\<exists>out sp' fr' lc'. trial E sp fr lc = Inr (out, sp', fr', lc')"
    by (intro trial_returns [of E fr desc target it' sp col lc]) simp_all
next
  assume tr: "trial E sp fr lc = Inr (out, sp', fr', lc')"
  show "(out = Rejected \<and>
       (\<exists>col. collider fr' = Some col \<and>
          (\<exists>i < nrows col. \<exists>j < ncols col.
             255 < cell col i j \<or> cell col i j = 2 \<or> cell col i j = 3)) \<and>
       n_rejections sp' = n_rejections sp + 1 \<and> n_successes sp' = n_successes sp \<and>
       data lc' = data lc)
    \<or> (out = Accepted \<and>
       (\<exists>col. collider fr' = Some col \<and>
          \<not> (\<exists>i < nrows col. \<exists>j < ncols col.
                255 < cell col i j \<or> cell col i j = 2 \<or> cell col i j = 3)) \<and>
       n_successes sp' = n_successes sp + 1 \<and> n_rejections sp' = n_rejections sp)"
  proof (cases out)
    case Rejected
    from trial_Rejected [OF tr [unfolded Rejected]] Rejected show ?thesis
      by (auto simp: overlap_detected_iff)
  next
    case Accepted
    from trial_Accepted [OF tr [unfolded Accepted]] Accepted show ?thesis
      by (auto simp: overlap_detected_iff)
  qed
next
  assume ns: "next_sample E sp fr = Some (Inr (smp, sp2, fr2))"
  obtain pixels tgts where smp: "smp = (pixels, tgts)" by (cases smp)
  from next_sample_effect [OF ns [unfolded smp]] obtain canvas sp1 k where
    fc: "fresh_canvas E sp = Inr (canvas, sp1)" and k: "0 \<le> k" and
    sp2: "sp2 = sp1\<lparr>n_successes := n_successes sp1 + 1, n_rejections := n_rejections sp1 + k\<rparr>"
    by blast
  from fresh_canvas_effect [OF fc]
  have "n_successes sp1 = n_successes sp \<and> n_rejections sp1 = n_rejections sp"
    by (auto split: if_splits)
  with k sp2 show "n_successes sp2 = n_successes sp + 1" "n_rejections sp \<le> n_rejections sp2"
    by simp_all
next
  show "snd (rejection_rate sp) = sp" by (simp add: rejection_rate_def Let_def)
qed

theorem trial_counters_witness:
  "SpritePlacer_init list_env toy_source True True = Inr toy_placer \<and>
   n_successes toy_placer = 0 \<and> n_rejections toy_placer = 0 \<and>
   gen_next list_env (gen_it toy_frame)
     = Inr (([((1, 1), toy_sprite), ((1, 1), toy_sprite)], [5]), tl toy_items) \<and>
   list_all (wf_placement (sp_h toy_placer) (sp_w toy_placer))
     [((1, 1), toy_sprite), ((1, 1), toy_sprite)] \<and>
   (\<exists>sp' fr' lc'. trial list_env toy_placer toy_frame toy_locals = Inr (Rejected, sp', fr', lc') \<and>
      n_rejections sp' = 1 \<and> n_successes sp' = 0 \<and> data lc' = data toy_locals) \<and>
   (\<exists>sp' fr' lc'. trial list_env toy_placer (toy_frame\<lparr>gen_it := tl toy_items\<rparr>) toy_locals
        = Inr (Accepted, sp', fr', lc') \<and>
      n_successes sp' = 1 \<and> n_rejections sp' = 0) \<and>
   (\<exists>smp sp2 fr2. next_sample list_env toy_placer toy_frame = Some (Inr (smp, sp2, fr2)) \<and>
      n_successes sp2 = 1 \<and> 0 \<le> n_rejections sp2)"
proof -
  note tc = trial_counters [where E = list_env and sp = toy_placer and lc = toy_locals]
  have z: "n_successes toy_placer = 0" "n_rejections toy_placer = 0"
    using tc [where g = toy_source and cc = True and ep = True and ?sp0.0 = toy_placer] toy_init
    by blast+
  have "\<exists>out sp' fr' lc'. trial list_env toy_placer toy_frame toy_locals = Inr (out, sp', fr', lc')"
    using tc [where fr = toy_frame and col = "const_array 4 4 0" and target = "[5]"
        and desc = "[((1, 1), toy_sprite), ((1, 1), toy_sprite)]" and it' = "tl toy_items"]
      toy_trial_inputs
    by (simp add: list_all_iff)
  then obtain out sp' fr' lc' where
    r0: "trial list_env toy_placer toy_frame toy_locals = Inr (out, sp', fr', lc')" by blast
  have "out = Rejected" using r0 toy_trial_rejected by auto
  with r0 have r: "trial list_env toy_placer toy_frame toy_locals = Inr (Rejected, sp', fr', lc')"
    by simp
  have r': "n_rejections sp' = 1 \<and> n_successes sp' = 0 \<and> data lc' = data toy_locals"
    using tc [where fr = toy_frame and out = Rejected and sp' = sp' and fr' = fr' and lc' = lc']
      r z by auto
  obtain sp'' fr'' lc'' where
    a: "trial list_env toy_placer (toy_frame\<lparr>gen_it := tl toy_items\<rparr>) toy_locals
          = Inr (Accepted, sp'', fr'', lc'')"
    using toy_trial_accepted by blast
  have a': "n_successes sp'' = 1 \<and> n_rejections sp'' = 0"
    using tc [where fr = "toy_frame\<lparr>gen_it := tl toy_items\<rparr>" and out = Accepted and sp' = sp''
        and fr' = fr'' and lc' = lc''] a z by auto
  obtain pixels tgts sp2 fr2 where
    n: "next_sample list_env toy_placer toy_frame = Some (Inr ((pixels, tgts), sp2, fr2))"
    using toy_run_ex by blast
  have n': "n_successes sp2 = 1 \<and> 0 \<le> n_rejections sp2"
    using tc [where fr = toy_frame and smp = "(pixels, tgts)" and ?sp2.0 = sp2 and ?fr2.0 = fr2]
      n z by auto
  show ?thesis using toy_init z toy_trial_inputs(1,2) r r' a a' n n' by blast
qed

subsection \<open>Background noise\<close>




subsection \<open>The accumulation step at the right and bottom edges\<close>

lemma add_mask_touching_right_edge:
  "\<exists>col. add_mask 8 8 (const_array 8 8 0) ((5, 3), block_sprite 2 2 1 9) = Inr col \<and>
     nrows col = 8 \<and> ncols col = 8 \<and>
     (\<forall>i j. cell col i j = (if 2 \<le> i \<and> i < 6 \<and> 4 \<le> j \<and> j < 7 then 1 else 0))"
  by (simp add: add_mask_def block_sprite_def const_array_def slice_defs Let_def)

lemma add_mask_two_past_right_edge:
  "\<exists>col. add_mask 8 8 (const_array 8 8 0) ((6, 3), block_sprite 2 2 2 9) = Inr col \<and>
     nrows col = 8 \<and> ncols col = 8 \<and>
     (\<forall>i j. cell col i j = (if 1 \<le> i \<and> i < 7 \<and> 4 \<le> j \<and> j < 7 then 1 else 0))"
  by (simp add: add_mask_def block_sprite_def const_array_def slice_defs Let_def)

lemma add_mask_in_last_column:
  "nrows colA = 8 \<Longrightarrow> ncols colA = 8 \<Longrightarrow>
   \<exists>colB. add_mask 8 8 colA ((7, 3), block_sprite 1 1 0 5) = Inr colB \<and>
     nrows colB = 8 \<and> ncols colB = 8 \<and> (\<forall>i j. cell colB i j = cell colA i j)"
  by (simp add: add_mask_def block_sprite_def const_array_def slice_defs Let_def)

text \<open>
  Claim C1, at footprints that reach the right edge of an 8 by 8 canvas. A 2 by 2 sprite
  with margin 1 at \<open>x = 5\<close> has the footprint columns \<open>[4, 8)\<close>, all inside the canvas, and
  its mask is 1 at mask column 3, yet column 7 of the collider receives nothing. A 2 by 2
  sprite with margin 2 at \<open>x = 6\<close> has the footprint columns \<open>[4, 10)\<close>, two past the edge;
  columns 4 to 7 are inside the canvas, yet column 7 receives nothing. A 1 by 1 sprite
  with no margin at \<open>(7, 3)\<close> lies inside the footprint of the first sprite, and the
  scene of the two is not detected as an overlap.
\<close>

theorem add_mask_omits_last_column:
  "cell (mask (block_sprite 2 2 1 9)) 1 3 = 1 \<and>
   (\<exists>col. add_mask 8 8 (const_array 8 8 0) ((5, 3), block_sprite 2 2 1 9) = Inr col \<and>
      cell col 3 6 = 1 \<and> cell col 3 7 = 0) \<and>
   cell (mask (block_sprite 2 2 2 9)) 2 3 = 1 \<and>
   (\<exists>col. add_mask 8 8 (const_array 8 8 0) ((6, 3), block_sprite 2 2 2 9) = Inr col \<and>
      cell col 3 6 = 1 \<and> cell col 3 7 = 0) \<and>
   (\<exists>col. accumulate 8 8 (const_array 8 8 0)
            [((5, 3), block_sprite 2 2 1 9), ((7, 3), block_sprite 1 1 0 5)] = Inr col \<and>
      \<not> overlap_detected col)"
proof (intro conjI)
  show "cell (mask (block_sprite 2 2 1 9)) 1 3 = 1" "cell (mask (block_sprite 2 2 2 9)) 2 3 = 1"
    by (simp_all add: block_sprite_def const_array_def)
  obtain colA where A: "add_mask 8 8 (const_array 8 8 0) ((5, 3), block_sprite 2 2 1 9) = Inr colA"
    and shA: "nrows colA = 8" "ncols colA = 8"
    and cellsA: "\<forall>i j. cell colA i j = (if 2 \<le> i \<and> i < 6 \<and> 4 \<le> j \<and> j < 7 then 1 else 0)"
    using add_mask_touching_right_edge by blast
  from cellsA have "cell colA 3 6 = 1" "cell colA 3 7 = 0" by simp_all
  with A show "\<exists>col. add_mask 8 8 (const_array 8 8 0) ((5, 3), block_sprite 2 2 1 9) = Inr col \<and>
      cell col 3 6 = 1 \<and> cell col 3 7 = 0" by blast
  obtain colC where C: "add_mask 8 8 (const_array 8 8 0) ((6, 3), block_sprite 2 2 2 9) = Inr colC"
    and cellsC: "\<forall>i j. cell colC i j = (if 1 \<le> i \<and> i < 7 \<and> 4 \<le> j \<and> j < 7 then 1 else 0)"
    using add_mask_two_past_right_edge by blast
  from cellsC have "cell colC 3 6 = 1" "cell colC 3 7 = 0" by simp_all
  with C show "\<exists>col. add_mask 8 8 (const_array 8 8 0) ((6, 3), block_sprite 2 2 2 9) = Inr col \<and>
      cell col 3 6 = 1 \<and> cell col 3 7 = 0" by blast
  obtain colB where B: "add_mask 8 8 colA ((7, 3), block_sprite 1 1 0 5) = Inr colB"
    and shB: "nrows colB = 8" "ncols colB = 8" and cellsB: "\<forall>i j. cell colB i j = cell colA i j"
    using add_mask_in_last_column [OF shA] by blast
  have "\<not> overlap_detected colB"
    using cellsA cellsB by (simp add: overlap_detected_iff)
  moreover have "accumulate 8 8 (const_array 8 8 0)
            [((5, 3), block_sprite 2 2 1 9), ((7, 3), block_sprite 1 1 0 5)] = Inr colB"
    using A B by simp
  ultimately show "\<exists>col. accumulate 8 8 (const_array 8 8 0)
            [((5, 3), block_sprite 2 2 1 9), ((7, 3), block_sprite 1 1 0 5)] = Inr col \<and>
      \<not> overlap_detected col" by blast
qed

end
